theory Spec2Isabelle
  imports Main
begin

section \<open>Python values and exceptions\<close>

text \<open>
  The program is \<^verbatim>\<open>scripts/configure_server.py\<close>. A Python string is modelled as
  the \<^typ>\<open>string\<close> of its UTF-8 encoding: a character below 128 is one byte, any other
  character a sequence of bytes from 128 on. Everything the program and the library
  functions it calls do with strings (searching, splitting and stripping at ASCII
  characters, comparing, concatenating) gives the same result on the encoding as on the
  characters; the one operation that does not, the Unicode normalisation inside
  \<^verbatim>\<open>urlparse\<close>, is a parameter. Byte strings are lists of characters as well. Every
  exception the program can meet is a value of \<open>error\<close>; a computation that may raise
  returns \<open>error + 'a\<close> with \<open>Inl\<close> the exception.
\<close>

type_synonym bytes = "char list"

datatype error =
    ValueError string
  | KeyError string
  | TypeError string
  | AttributeError string
  | ClientError string
  | OtherClientFailure string
  | FileNotFoundError
  | IsADirectoryError
  | OSError string
  | EOFError
  | UnsupportedOperation string
  | JSONDecodeError

text \<open>
  \<open>ClientError code\<close> is \<^verbatim>\<open>botocore.exceptions.ClientError\<close> with the error code of the
  response (\<open>''404''\<close>, \<open>''403''\<close>, ...); \<open>OtherClientFailure\<close> is any exception of the
  object-store client that is not a \<^verbatim>\<open>ClientError\<close> (connection and credential failures,
  parameter validation).
\<close>

fun is_ClientError :: "error \<Rightarrow> bool" where
  "is_ClientError (ClientError c) = True"
| "is_ClientError e = False"

section \<open>String operations of Python used by the program\<close>

text \<open>\<^verbatim>\<open>s.split(sep)\<close> for a one-character separator: never returns the empty list.\<close>

fun split_str :: "char \<Rightarrow> string \<Rightarrow> string list" where
  "split_str sep [] = [[]]"
| "split_str sep (c # cs) =
     (if c = sep then [] # split_str sep cs
      else (case split_str sep cs of [] \<Rightarrow> [[c]] | s # ss \<Rightarrow> (c # s) # ss))"

text \<open>\<^verbatim>\<open>sep.join(xs)\<close>.\<close>

fun join_str :: "string \<Rightarrow> string list \<Rightarrow> string" where
  "join_str sep [] = []"
| "join_str sep [s] = s"
| "join_str sep (s # t # ts) = s @ sep @ join_str sep (t # ts)"

text \<open>\<^verbatim>\<open>s.endswith(suf)\<close>.\<close>

definition endswith :: "string \<Rightarrow> string \<Rightarrow> bool" where
  "endswith s suf = (length suf \<le> length s \<and> drop (length s - length suf) s = suf)"

text \<open>\<^verbatim>\<open>os.path.basename\<close> (POSIX): everything after the last slash.\<close>

definition basename :: "string \<Rightarrow> string" where
  "basename p = rev (takeWhile (\<lambda>c. c \<noteq> CHR ''/'') (rev p))"

text \<open>\<^verbatim>\<open>s.partition(c)\<close>: the part before the first \<open>c\<close> and the part after it.\<close>

definition before_char :: "char \<Rightarrow> string \<Rightarrow> string" where
  "before_char c s = takeWhile (\<lambda>x. x \<noteq> c) s"

definition after_char :: "char \<Rightarrow> string \<Rightarrow> string" where
  "after_char c s = drop 1 (dropWhile (\<lambda>x. x \<noteq> c) s)"

section \<open>\<^verbatim>\<open>urllib.parse.urlparse\<close>\<close>

text \<open>
  \<^verbatim>\<open>S3Path.from_url\<close> calls the standard library's \<^verbatim>\<open>urlparse\<close>. The model follows
  \<^verbatim>\<open>urlsplit\<close> and \<^verbatim>\<open>urlparse\<close> of CPython 3.11 step by step. Two things are taken as
  given, each as a parameter: the validation of a bracketed host
  (\<^verbatim>\<open>_check_bracketed_host\<close>, which calls the \<^verbatim>\<open>ipaddress\<close> module) is \<open>hok\<close>, and the
  test that \<^verbatim>\<open>_checknetloc\<close> makes on a network location that is not pure ASCII (its
  NFKC normal form holds none of \<open>/ ? # @ :\<close> that the location itself does not hold)
  is \<open>nok\<close>.
\<close>

record ParseResult =
  scheme :: string
  netloc :: string
  path :: string
  params :: string
  query :: string
  fragment :: string

definition WHATWG_C0_CONTROL_OR_SPACE :: "char \<Rightarrow> bool" where
  "WHATWG_C0_CONTROL_OR_SPACE c = ((of_char c :: nat) \<le> 32)"

definition UNSAFE_URL_BYTES_TO_REMOVE :: "char list" where
  "UNSAFE_URL_BYTES_TO_REMOVE = [CHR 0x09, CHR 0x0D, CHR 0x0A]"

definition ascii_lowercase :: string where
  "ascii_lowercase = ''abcdefghijklmnopqrstuvwxyz''"

definition ascii_uppercase :: string where
  "ascii_uppercase = ''ABCDEFGHIJKLMNOPQRSTUVWXYZ''"

definition scheme_chars :: string where
  "scheme_chars = ascii_lowercase @ ascii_uppercase @ ''0123456789+-.''"

definition uses_params :: "string list" where
  "uses_params = ['''', ''ftp'', ''hdl'', ''prospero'', ''http'', ''imap'', ''https'',
     ''shttp'', ''rtsp'', ''rtsps'', ''rtspu'', ''sip'', ''sips'', ''mms'', ''sftp'', ''tel'']"

text \<open>\<^verbatim>\<open>c.isascii() and c.isalpha()\<close>.\<close>

definition ascii_alpha :: "char \<Rightarrow> bool" where
  "ascii_alpha c = (c \<in> set (ascii_lowercase @ ascii_uppercase))"

text \<open>\<^verbatim>\<open>s.lower()\<close>, on the characters a scheme may hold.\<close>

definition lower_char :: "char \<Rightarrow> char" where
  "lower_char c = (case map_of (zip ascii_uppercase ascii_lowercase) c of
                     None \<Rightarrow> c | Some d \<Rightarrow> d)"

definition lower :: "string \<Rightarrow> string" where
  "lower s = map lower_char s"

text \<open>
  The first steps of \<^verbatim>\<open>urlsplit\<close>: strip leading control characters and spaces, remove
  tab, carriage return and line feed everywhere.
\<close>

definition clean_url :: "string \<Rightarrow> string" where
  "clean_url url =
     filter (\<lambda>c. c \<notin> set UNSAFE_URL_BYTES_TO_REMOVE)
       (dropWhile WHATWG_C0_CONTROL_OR_SPACE url)"

text \<open>
  The scheme: \<^verbatim>\<open>i = url.find(':')\<close>; when \<open>i > 0\<close>, the first character is an ASCII
  letter and everything before the colon is a scheme character, the scheme is that
  prefix in lower case and the url continues after the colon. Returns (scheme, rest).
\<close>

definition split_scheme :: "string \<Rightarrow> string \<times> string" where
  "split_scheme url =
     (let i = length (before_char CHR '':'' url) in
      if CHR '':'' \<in> set url \<and> i > 0 \<and> ascii_alpha (hd url)
         \<and> list_all (\<lambda>c. c \<in> set scheme_chars) (take i url)
      then (lower (take i url), drop (i + 1) url)
      else ([], url))"

text \<open>\<^verbatim>\<open>_splitnetloc(url, 2)\<close>: the text after \<open>//\<close> up to the first of \<open>/ ? #\<close>.\<close>

definition splitnetloc :: "string \<Rightarrow> string \<times> string" where
  "splitnetloc url =
     (takeWhile (\<lambda>c. c \<notin> set ''/?#'') (drop 2 url),
      dropWhile (\<lambda>c. c \<notin> set ''/?#'') (drop 2 url))"

text \<open>
  The network location with the bracket checks of \<^verbatim>\<open>urlsplit\<close>, which raise
  \<^verbatim>\<open>ValueError\<close>. Returns (netloc, rest).
\<close>

definition split_netloc :: "(string \<Rightarrow> bool) \<Rightarrow> string \<Rightarrow> error + (string \<times> string)" where
  "split_netloc hok url =
     (if take 2 url = ''//'' then
        (let (nl, rest) = splitnetloc url;
             lb = CHR ''['' \<in> set nl; rb = CHR '']'' \<in> set nl in
         if (lb \<and> \<not> rb) \<or> (rb \<and> \<not> lb) then Inl (ValueError ''Invalid IPv6 URL'')
         else if lb \<and> rb \<and> \<not> hok (before_char CHR '']'' (after_char CHR ''['' nl))
         then Inl (ValueError ''invalid bracketed host'')
         else Inr (nl, rest))
      else Inr ([], url))"

text \<open>\<^verbatim>\<open>s.isascii()\<close>, on the encoding: every byte is below 128.\<close>

definition isascii :: "string \<Rightarrow> bool" where
  "isascii s = list_all (\<lambda>c. (of_char c :: nat) < 128) s"

text \<open>
  \<^verbatim>\<open>_checknetloc\<close>: nothing to check on an empty or pure ASCII network location;
  otherwise \<^verbatim>\<open>ValueError\<close> unless the normalisation test \<open>nok\<close> passes. \<open>None\<close> is
  the normal return.
\<close>

definition checknetloc :: "(string \<Rightarrow> bool) \<Rightarrow> string \<Rightarrow> error option" where
  "checknetloc nok nl =
     (if nl = [] \<or> isascii nl then None
      else if nok nl then None
      else Some (ValueError ''netloc contains invalid characters under NFKC normalization''))"

definition urlsplit ::
  "(string \<Rightarrow> bool) \<Rightarrow> (string \<Rightarrow> bool) \<Rightarrow> string \<Rightarrow> error + ParseResult" where
  "urlsplit hok nok url0 =
     (let (sch, url1) = split_scheme (clean_url url0) in
      case split_netloc hok url1 of
        Inl e \<Rightarrow> Inl e
      | Inr (nl, url2) \<Rightarrow>
          (let (url3, frag) = (if CHR ''#'' \<in> set url2
                               then (before_char CHR ''#'' url2, after_char CHR ''#'' url2)
                               else (url2, []));
               (url4, qry) = (if CHR ''?'' \<in> set url3
                              then (before_char CHR ''?'' url3, after_char CHR ''?'' url3)
                              else (url3, []))
           in case checknetloc nok nl of
                Some e \<Rightarrow> Inl e
              | None \<Rightarrow> Inr \<lparr>scheme = sch, netloc = nl, path = url4, params = [],
                               query = qry, fragment = frag\<rparr>))"

text \<open>
  \<^verbatim>\<open>_splitparams\<close>: the parameters start at the first \<open>;\<close> of the last path segment.
\<close>

definition splitparams :: "string \<Rightarrow> string \<times> string" where
  "splitparams url =
     (if CHR ''/'' \<in> set url then
        (let seg = basename url; hd_len = length url - length seg in
         if CHR '';'' \<in> set seg
         then (take hd_len url @ before_char CHR '';'' seg, after_char CHR '';'' seg)
         else (url, []))
      else (before_char CHR '';'' url, after_char CHR '';'' url))"

definition urlparse ::
  "(string \<Rightarrow> bool) \<Rightarrow> (string \<Rightarrow> bool) \<Rightarrow> string \<Rightarrow> error + ParseResult" where
  "urlparse hok nok url =
     (case urlsplit hok nok url of
        Inl e \<Rightarrow> Inl e
      | Inr r \<Rightarrow>
          if scheme r \<in> set uses_params \<and> CHR '';'' \<in> set (path r)
          then (let (u, p) = splitparams (path r) in Inr (r\<lparr>path := u, params := p\<rparr>))
          else Inr r)"

section \<open>\<^verbatim>\<open>S3Path\<close>\<close>

record S3Path =
  bucket :: string
  key :: string

definition base_name :: "S3Path \<Rightarrow> string" where
  "base_name self = basename (key self)"

text \<open>
  \<^verbatim>\<open>from_url\<close>: the test \<^verbatim>\<open>result.netloc is not None\<close> is on a value that is always a
  string (\<^verbatim>\<open>urlsplit\<close> starts from \<^verbatim>\<open>netloc = ''\<close>), written here as \<open>Some _ \<noteq> None\<close>.
  \<open>Inr None\<close> is the return value \<^verbatim>\<open>None\<close>; \<open>Inl\<close> is an exception of \<^verbatim>\<open>urlparse\<close>, which
  \<^verbatim>\<open>from_url\<close> does not catch.
\<close>

definition from_url ::
  "(string \<Rightarrow> bool) \<Rightarrow> (string \<Rightarrow> bool) \<Rightarrow> string \<Rightarrow> error + S3Path option" where
  "from_url hok nok url =
     (case urlparse hok nok url of
        Inl e \<Rightarrow> Inl e
      | Inr result \<Rightarrow>
          if scheme result = ''s3'' \<and> Some (netloc result) \<noteq> None
          then Inr (Some \<lparr>bucket = netloc result, key = path result\<rparr>)
          else Inr None)"

text \<open>\<^verbatim>\<open>navigate(*args)\<close>.\<close>

definition navigate :: "S3Path \<Rightarrow> string list \<Rightarrow> S3Path" where
  "navigate self args =
     (let elements = split_str CHR ''/'' (key self);
          new_path = join_str ''/'' (elements @ args)
      in \<lparr>bucket = bucket self, key = ''/'' @ new_path\<rparr>)"

text \<open>The property \<^verbatim>\<open>url\<close>.\<close>

definition url :: "S3Path \<Rightarrow> string" where
  "url self = ''s3://'' @ bucket self @ key self"

section \<open>Local paths and the filesystem\<close>

text \<open>
  A \<^verbatim>\<open>pathlib\<close> path on POSIX: the root (\<open>''/''\<close>, \<open>''//''\<close> or empty for a relative
  path) and the names below it. \<open>truediv\<close> is the operator \<^verbatim>\<open>/\<close> with a string on the
  right: an absolute right operand replaces the left one, empty names and \<open>.\<close> are dropped.
\<close>

record PurePath =
  anchor :: string
  segments :: "string list"

definition parse_anchor :: "string \<Rightarrow> string" where
  "parse_anchor s =
     (if take 2 s = ''//'' \<and> take 3 s \<noteq> ''///'' then ''//''
      else if take 1 s = ''/'' then ''/'' else [])"

definition parse_segments :: "string \<Rightarrow> string list" where
  "parse_segments s = filter (\<lambda>x. x \<noteq> [] \<and> x \<noteq> ''.'') (split_str CHR ''/'' s)"

definition truediv :: "PurePath \<Rightarrow> string \<Rightarrow> PurePath" where
  "truediv p s =
     (if parse_anchor s \<noteq> []
      then \<lparr>anchor = parse_anchor s, segments = parse_segments s\<rparr>
      else \<lparr>anchor = anchor p, segments = segments p @ parse_segments s\<rparr>)"

definition parent :: "PurePath \<Rightarrow> PurePath" where
  "parent p = \<lparr>anchor = anchor p, segments = butlast (segments p)\<rparr>"

text \<open>\<open>is_under d p\<close>: the path \<open>p\<close> is the directory \<open>d\<close> or lies below it.\<close>

definition is_under :: "PurePath \<Rightarrow> PurePath \<Rightarrow> bool" where
  "is_under d p = (anchor p = anchor d \<and> take (length (segments d)) (segments p) = segments d)"

text \<open>
  What the program does to the outside is recorded as a sequence of events: the lines
  it prints, the requests it sends to the object store, and the filesystem operations.
\<close>

datatype event =
    Print string
  | ListPage string string
  | HeadObject string string
  | GetObject string string
  | DownloadFileobj string string PurePath
  | OpenWrite PurePath
  | OpenRead PurePath
  | MkDtemp PurePath
  | RmTree PurePath

fun is_remote_call :: "event \<Rightarrow> bool" where
  "is_remote_call (ListPage b k) = True"
| "is_remote_call (HeadObject b k) = True"
| "is_remote_call (GetObject b k) = True"
| "is_remote_call (DownloadFileobj b k p) = True"
| "is_remote_call ev = False"

fun is_fs_write :: "event \<Rightarrow> bool" where
  "is_fs_write (DownloadFileobj b k p) = True"
| "is_fs_write (OpenWrite p) = True"
| "is_fs_write (MkDtemp p) = True"
| "is_fs_write (RmTree p) = True"
| "is_fs_write ev = False"

text \<open>
  The mutable state: regular files with their content, the directories that exist, and
  the events so far. Paths are compared as written (no symbolic links); permissions and
  disk capacity are not modelled.
\<close>

record world =
  files :: "PurePath \<rightharpoonup> bytes"
  dirs :: "PurePath set"
  trace :: "event list"

type_synonym 'a io = "world \<Rightarrow> (error + 'a) \<times> world"

definition io_return :: "'a \<Rightarrow> 'a io" where
  "io_return x w = (Inr x, w)"

definition io_raise :: "error \<Rightarrow> 'a io" where
  "io_raise e w = (Inl e, w)"

text \<open>Sequencing: an exception of the first action skips the second.\<close>

definition io_bind :: "'a io \<Rightarrow> ('a \<Rightarrow> 'b io) \<Rightarrow> 'b io" where
  "io_bind m f w = (case m w of (Inl e, w') \<Rightarrow> (Inl e, w') | (Inr x, w') \<Rightarrow> f x w')"

definition emit :: "event \<Rightarrow> world \<Rightarrow> world" where
  "emit ev w = w\<lparr>trace := trace w @ [ev]\<rparr>"

definition io_print :: "string \<Rightarrow> unit io" where
  "io_print msg w = (Inr (), emit (Print msg) w)"

text \<open>\<^verbatim>\<open>p.open("wb")\<close>: creates or truncates the file; the directory must exist.\<close>

definition open_wb :: "PurePath \<Rightarrow> unit io" where
  "open_wb p w =
     (let w1 = emit (OpenWrite p) w in
      if p \<in> dirs w then (Inl IsADirectoryError, w1)
      else if parent p \<notin> dirs w then (Inl FileNotFoundError, w1)
      else (Inr (), w1\<lparr>files := (files w1)(p \<mapsto> [])\<rparr>))"

text \<open>
  Opening for reading (\<^verbatim>\<open>p.open()\<close>, \<^verbatim>\<open>p.open("rb")\<close>, \<^verbatim>\<open>bz2.BZ2File(p)\<close>): the file
  must exist; the result stands for the open handle and is the content to be read.
\<close>

definition open_rb :: "PurePath \<Rightarrow> bytes io" where
  "open_rb p w =
     (let w1 = emit (OpenRead p) w in
      if p \<in> dirs w then (Inl IsADirectoryError, w1)
      else (case files w p of
              None \<Rightarrow> (Inl FileNotFoundError, w1)
            | Some content \<Rightarrow> (Inr content, w1)))"

section \<open>The environment: object store, codec, parser\<close>

datatype pyval = PyStr string | PyDict "(string \<times> string) list"

text \<open>
  A page of a \<^verbatim>\<open>list_objects_v2\<close> response is a dictionary; the model keeps the entry
  under \<^verbatim>\<open>"Contents"\<close>, \<open>None\<close> when the page has no such entry.
\<close>

datatype page = Page "pyval list option"

fun page_Contents :: "page \<Rightarrow> error + pyval list" where
  "page_Contents (Page None) = Inl (KeyError ''Contents'')"
| "page_Contents (Page (Some objs)) = Inr objs"

datatype json = JString string | JObject "(string \<times> json) list" | JOther

text \<open>
  Everything the program is given from outside. The object-store client is the object
  the code calls methods on; each method is a function of its arguments (the store does
  not change during a run):
  \<^item> \<open>paginate op b p\<close>: the pages of \<^verbatim>\<open>client.paginator(op).paginate(Bucket=b, Prefix=p)\<close>
    in order, a page request that raises being \<open>Inl\<close>;
  \<^item> \<open>head_object b k\<close>: \<open>None\<close> when \<^verbatim>\<open>head_object\<close> returns, \<open>Some e\<close> when it raises;
  \<^item> \<open>get_object b k\<close>: the bytes of the response body, or the exception;
  \<^item> \<open>download_fileobj b k\<close>: the bytes written to the file object, and the exception
    raised after them, if any.

  \<open>bz2_read c\<close> is what reading a \<^verbatim>\<open>BZ2File\<close> over content \<open>c\<close> delivers before it ends
  or raises; \<open>json_load\<close> is \<^verbatim>\<open>json.load\<close>; \<open>mkdtemp\<close> is the directory that
  \<^verbatim>\<open>tempfile.TemporaryDirectory()\<close> creates, or its failure; \<open>cwd\<close> and \<open>home\<close> are
  \<^verbatim>\<open>Path.cwd().resolve()\<close> and \<^verbatim>\<open>Path.home().resolve()\<close>; \<open>host_ok\<close> and \<open>netloc_ok\<close> are
  the bracketed-host check and the normalisation test of \<^verbatim>\<open>urlparse\<close>.
\<close>

record env =
  host_ok :: "string \<Rightarrow> bool"
  netloc_ok :: "string \<Rightarrow> bool"
  cwd :: PurePath
  home :: PurePath
  mkdtemp :: "error + PurePath"
  paginate :: "string \<Rightarrow> string \<Rightarrow> string \<Rightarrow> (error + page) list"
  head_object :: "string \<Rightarrow> string \<Rightarrow> error option"
  get_object :: "string \<Rightarrow> string \<Rightarrow> error + bytes"
  download_fileobj :: "string \<Rightarrow> string \<Rightarrow> bytes \<times> error option"
  bz2_read :: "bytes \<Rightarrow> bytes \<times> error option"
  json_load :: "bytes \<Rightarrow> error + json"

section \<open>\<^verbatim>\<open>S3Path\<close>: the methods that use the client\<close>

text \<open>
  \<^verbatim>\<open>from_object(cls, bucket, object)\<close> is a class method of two parameters; the model
  takes the positional arguments of the call as a list, so that a call with the wrong
  number of arguments raises \<^verbatim>\<open>TypeError\<close> as Python does. (A first argument that is not
  a string is outside the annotation \<^verbatim>\<open>bucket: str\<close>; the model stops there as well.)
\<close>

fun from_object :: "pyval list \<Rightarrow> error + S3Path" where
  "from_object [PyStr b, PyDict object] =
     (case map_of object ''Key'' of
        None \<Rightarrow> Inl (KeyError ''Key'')
      | Some k \<Rightarrow> Inr \<lparr>bucket = b, key = k\<rparr>)"
| "from_object [PyStr b, PyStr s] = Inl (TypeError ''string indices must be integers'')"
| "from_object [PyDict d, object] = Inl (TypeError ''bucket is not a str'')"
| "from_object [] = Inl (TypeError ''missing 2 required positional arguments'')"
| "from_object [x] = Inl (TypeError ''missing 1 required positional argument: object'')"
| "from_object (x # y # z # zs) = Inl (TypeError ''too many positional arguments'')"

text \<open>
  A generator is the sequence of what it does when pulled: events, yielded values, and
  an exception, after which nothing more of it runs.
\<close>

datatype 'a gen_item = GYield 'a | GRaise error | GEvent event

text \<open>
  \<^verbatim>\<open>ls\<close>: for every page, \<^verbatim>\<open>yield from map(self.from_object, page["Contents"])\<close>. The
  built-in \<^verbatim>\<open>map\<close> calls \<^verbatim>\<open>self.from_object\<close> with one positional argument, the listed
  object.
\<close>

definition ls_page :: "S3Path \<Rightarrow> error + page \<Rightarrow> S3Path gen_item list" where
  "ls_page self pg =
     GEvent (ListPage (bucket self) (key self)) #
     (case pg of
        Inl e \<Rightarrow> [GRaise e]
      | Inr page \<Rightarrow>
          (case page_Contents page of
             Inl e \<Rightarrow> [GRaise e]
           | Inr objs \<Rightarrow>
               map (\<lambda>object. case from_object [object] of
                                Inl e \<Rightarrow> GRaise e | Inr p \<Rightarrow> GYield p) objs))"

definition ls :: "env \<Rightarrow> S3Path \<Rightarrow> S3Path gen_item list" where
  "ls client self =
     concat (map (ls_page self) (paginate client ''list_objects_v2'' (bucket self) (key self)))"

text \<open>
  \<^verbatim>\<open>get(client, fd)\<close>: \<^verbatim>\<open>client.download_fileobj(bucket, key, fd)\<close>, with the path of the
  file that \<open>fd\<close> is open on.
\<close>

definition s3_get :: "env \<Rightarrow> S3Path \<Rightarrow> PurePath \<Rightarrow> unit io" where
  "s3_get client self fd w =
     (let (data, err) = download_fileobj client (bucket self) (key self);
          old = (case files w fd of None \<Rightarrow> [] | Some c \<Rightarrow> c);
          w1 = (emit (DownloadFileobj (bucket self) (key self) fd) w)
                 \<lparr>files := (files w)(fd \<mapsto> old @ data)\<rparr>
      in case err of None \<Rightarrow> (Inr (), w1) | Some e \<Rightarrow> (Inl e, w1))"

definition load_json :: "env \<Rightarrow> S3Path \<Rightarrow> json io" where
  "load_json client self w =
     (let w1 = emit (GetObject (bucket self) (key self)) w in
      case get_object client (bucket self) (key self) of
        Inl e \<Rightarrow> (Inl e, w1)
      | Inr body \<Rightarrow> (json_load client body, w1))"

text \<open>\<^verbatim>\<open>is_object\<close>: \<^verbatim>\<open>except ClientError\<close> catches every \<^verbatim>\<open>ClientError\<close> and nothing else.\<close>

definition is_object :: "env \<Rightarrow> S3Path \<Rightarrow> bool io" where
  "is_object client self w =
     (let w1 = emit (HeadObject (bucket self) (key self)) w in
      case head_object client (bucket self) (key self) of
        None \<Rightarrow> (Inr True, w1)
      | Some e \<Rightarrow> if is_ClientError e then (Inr False, w1) else (Inl e, w1))"

section \<open>\<^verbatim>\<open>RuntimeContext\<close>\<close>

record RuntimeContext =
  map_location :: "S3Path option"
  config_location :: "S3Path option"
  working_dir :: PurePath
  home_dir :: PurePath

definition is_maps_provided :: "RuntimeContext \<Rightarrow> bool" where
  "is_maps_provided self = (map_location self \<noteq> None)"

definition is_config_provided :: "RuntimeContext \<Rightarrow> bool" where
  "is_config_provided self = (config_location self \<noteq> None)"

definition from_urls :: "env \<Rightarrow> string \<Rightarrow> string \<Rightarrow> error + RuntimeContext" where
  "from_urls e map_url config_url =
     (case from_url (host_ok e) (netloc_ok e) map_url of
        Inl x \<Rightarrow> Inl x
      | Inr ml \<Rightarrow>
          (case from_url (host_ok e) (netloc_ok e) config_url of
             Inl x \<Rightarrow> Inl x
           | Inr cl \<Rightarrow> Inr \<lparr>map_location = ml, config_location = cl,
                            working_dir = cwd e, home_dir = home e\<rparr>))"

text \<open>The generator \<^verbatim>\<open>maps\<close>: the listed objects whose key ends with \<^verbatim>\<open>.bsp.bz2\<close>.\<close>

fun keeps_map :: "S3Path gen_item \<Rightarrow> bool" where
  "keeps_map (GYield obj) = endswith (key obj) ''.bsp.bz2''"
| "keeps_map it = True"

definition ctx_maps :: "env \<Rightarrow> RuntimeContext \<Rightarrow> S3Path gen_item list" where
  "ctx_maps e self =
     (case map_location self of
        None \<Rightarrow> [GRaise (AttributeError ''NoneType has no attribute ls'')]
      | Some loc \<Rightarrow> filter keeps_map (ls e loc))"

definition map_dir :: "RuntimeContext \<Rightarrow> PurePath" where
  "map_dir self = truediv (working_dir self) ''maps''"

definition static_manifest_path :: "RuntimeContext \<Rightarrow> PurePath" where
  "static_manifest_path self = truediv (home_dir self) ''manifest.json''"

definition config_manifest :: "env \<Rightarrow> RuntimeContext \<Rightarrow> json io" where
  "config_manifest e self =
     (case config_location self of
        None \<Rightarrow> io_raise (AttributeError ''NoneType has no attribute navigate'')
      | Some loc \<Rightarrow>
          (let dynamic_manifest = navigate loc [''manifest.json''] in
           io_bind (is_object e dynamic_manifest) (\<lambda>found.
             if found then load_json e dynamic_manifest
             else io_bind (open_rb (static_manifest_path self))
                    (\<lambda>fd w. (json_load e fd, w)))))"

text \<open>
  \<^verbatim>\<open>shutil.copyfileobj(bz2_fd, bsp_fd)\<close> where \<open>bsp_fd\<close> was opened with mode \<^verbatim>\<open>"rb"\<close>: the
  first chunk that the decompressor delivers is written to a read-only file object,
  which raises \<^verbatim>\<open>io.UnsupportedOperation\<close>; with no chunk at all, the exception of the
  decompressor is raised, if any, and nothing is written.
\<close>

definition copyfileobj_rb :: "env \<Rightarrow> bytes \<Rightarrow> unit io" where
  "copyfileobj_rb e compressed =
     (let (out, err) = bz2_read e compressed in
      if out \<noteq> [] then io_raise (UnsupportedOperation ''write'')
      else (case err of None \<Rightarrow> io_return () | Some x \<Rightarrow> io_raise x))"

definition download_map :: "env \<Rightarrow> RuntimeContext \<Rightarrow> PurePath \<Rightarrow> S3Path \<Rightarrow> unit io" where
  "download_map e self tmpdir obj =
     (let tmpfile = truediv tmpdir (base_name obj);
          mapfile = truediv (map_dir self) (base_name obj)
      in io_bind (open_wb tmpfile) (\<lambda>fd.
         io_bind (s3_get e obj tmpfile) (\<lambda>u.
         io_bind (open_rb tmpfile) (\<lambda>bz2_fd.
         io_bind (open_rb mapfile) (\<lambda>bsp_fd.
           copyfileobj_rb e bz2_fd)))))"

text \<open>The loop \<^verbatim>\<open>for obj in self.maps: self.download_map(tmpdir, obj)\<close>.\<close>

fun download_maps_loop ::
  "env \<Rightarrow> RuntimeContext \<Rightarrow> PurePath \<Rightarrow> S3Path gen_item list \<Rightarrow> unit io" where
  "download_maps_loop e self tmpdir [] w = (Inr (), w)"
| "download_maps_loop e self tmpdir (GEvent ev # rest) w =
     download_maps_loop e self tmpdir rest (emit ev w)"
| "download_maps_loop e self tmpdir (GRaise x # rest) w = (Inl x, w)"
| "download_maps_loop e self tmpdir (GYield obj # rest) w =
     (case download_map e self tmpdir obj w of
        (Inl x, w') \<Rightarrow> (Inl x, w')
      | (Inr u, w') \<Rightarrow> download_maps_loop e self tmpdir rest w')"

text \<open>Leaving the \<^verbatim>\<open>TemporaryDirectory\<close> block removes the directory and all below it.\<close>

definition cleanup :: "PurePath \<Rightarrow> world \<Rightarrow> world" where
  "cleanup t w =
     \<lparr>files = (\<lambda>p. if is_under t p then None else files w p),
      dirs = Set.filter (\<lambda>p. \<not> is_under t p) (dirs w),
      trace = trace w @ [RmTree t]\<rparr>"

definition download_maps :: "env \<Rightarrow> RuntimeContext \<Rightarrow> unit io" where
  "download_maps e self w =
     (case mkdtemp e of
        Inl x \<Rightarrow> (Inl x, w)
      | Inr tmpdir \<Rightarrow>
          (let w1 = (emit (MkDtemp tmpdir) w)\<lparr>dirs := insert tmpdir (dirs w)\<rparr>;
               (r, w2) = download_maps_loop e self tmpdir (ctx_maps e self) w1
           in (r, cleanup tmpdir w2)))"

definition download_configuration_file ::
  "env \<Rightarrow> RuntimeContext \<Rightarrow> string \<Rightarrow> json \<Rightarrow> unit io" where
  "download_configuration_file e self filename directory =
     (case directory of
        JString d \<Rightarrow>
          (let target_path = truediv (truediv (working_dir self) d) filename in
           case config_location self of
             None \<Rightarrow> io_raise (AttributeError ''NoneType has no attribute navigate'')
           | Some loc \<Rightarrow>
               (let source_path = navigate loc [filename] in
                io_bind (open_wb target_path) (\<lambda>fd. s3_get e source_path target_path)))
      | JObject x \<Rightarrow> io_raise (TypeError ''unsupported operand type(s) for /'')
      | JOther \<Rightarrow> io_raise (TypeError ''unsupported operand type(s) for /''))"

text \<open>The loop over \<^verbatim>\<open>self.config_manifest.items()\<close>.\<close>

fun download_configuration_loop ::
  "env \<Rightarrow> RuntimeContext \<Rightarrow> (string \<times> json) list \<Rightarrow> unit io" where
  "download_configuration_loop e self [] w = (Inr (), w)"
| "download_configuration_loop e self ((filename, directory) # rest) w =
     (case download_configuration_file e self filename directory w of
        (Inl x, w') \<Rightarrow> (Inl x, w')
      | (Inr u, w') \<Rightarrow> download_configuration_loop e self rest w')"

definition download_configuration_files :: "env \<Rightarrow> RuntimeContext \<Rightarrow> unit io" where
  "download_configuration_files e self =
     io_bind (config_manifest e self) (\<lambda>manifest.
       case manifest of
         JObject entries \<Rightarrow> download_configuration_loop e self entries
       | JString s \<Rightarrow> io_raise (AttributeError ''str object has no attribute items'')
       | JOther \<Rightarrow> io_raise (AttributeError ''object has no attribute items''))"

section \<open>\<^verbatim>\<open>main\<close>\<close>

text \<open>
  The two \<^verbatim>\<open>if\<close> statements of \<^verbatim>\<open>main\<close>, each with the line it prints, named after
  the phases of the specification. The printed line reads \<^verbatim>\<open>ctx.map_location.url\<close>
  (or \<^verbatim>\<open>ctx.config_location.url\<close>), which the test before it guards.
\<close>

definition maps_phase :: "env \<Rightarrow> RuntimeContext \<Rightarrow> unit io" where
  "maps_phase e ctx =
     (if is_maps_provided ctx then
        (case map_location ctx of
           None \<Rightarrow> io_raise (AttributeError ''NoneType has no attribute url'')
         | Some loc \<Rightarrow>
             io_bind (io_print (''Downloading custom maps from repository: '' @ url loc))
               (\<lambda>u. download_maps e ctx))
      else io_print ''Skipping custom map download - no map repository provided'')"

definition config_phase :: "env \<Rightarrow> RuntimeContext \<Rightarrow> unit io" where
  "config_phase e ctx =
     (if is_config_provided ctx then
        (case config_location ctx of
           None \<Rightarrow> io_raise (AttributeError ''NoneType has no attribute url'')
         | Some loc \<Rightarrow>
             io_bind (io_print (''Downloading dynamic configuration from repository: '' @ url loc))
               (\<lambda>u. download_configuration_files e ctx))
      else io_print ''Skipping dynamic configuration - no configuration repository provided'')"

text \<open>
  \<^verbatim>\<open>main\<close> with the values of \<^verbatim>\<open>--maps\<close> and \<^verbatim>\<open>--config\<close> (each the empty string by
  default). The result \<open>Inr 0\<close> is the return value that \<^verbatim>\<open>sys.exit\<close> receives; \<open>Inl\<close> is
  an uncaught exception, which ends the process with a non-zero status.
\<close>

definition main :: "env \<Rightarrow> string \<Rightarrow> string \<Rightarrow> int io" where
  "main e maps_arg config_arg w =
     (let w1 = emit (Print ''Beginning server configuration...'') w in
      case from_urls e maps_arg config_arg of
        Inl x \<Rightarrow> (Inl x, w1)
      | Inr ctx \<Rightarrow>
          io_bind (maps_phase e ctx) (\<lambda>u.
          io_bind (config_phase e ctx) (\<lambda>v.
          io_bind (io_print ''Server configuration successful - starting SRCDS...'') (\<lambda>x.
            io_return 0))) w1)"

section \<open>Well-formed addresses and sample inputs\<close>

text \<open>
  An address \<open>s3://container/key\<close> is well formed when the container is not empty,
  holds none of the characters that end or bracket a network location, and is pure ASCII
  or passes the normalisation test \<open>nok\<close> of \<^verbatim>\<open>urlparse\<close>; the key is empty or starts
  with a slash and holds no query or fragment mark; and neither holds a character that
  \<^verbatim>\<open>urlparse\<close> deletes.
\<close>

definition well_formed_address :: "(string \<Rightarrow> bool) \<Rightarrow> string \<Rightarrow> string \<Rightarrow> bool" where
  "well_formed_address nok container k =
     (container \<noteq> []
      \<and> list_all (\<lambda>c. c \<notin> set ''/?#[]'' \<and> c \<notin> set UNSAFE_URL_BYTES_TO_REMOVE) container
      \<and> (isascii container \<or> nok container)
      \<and> (k = [] \<or> hd k = CHR ''/'')
      \<and> list_all (\<lambda>c. c \<notin> set ''?#'' \<and> c \<notin> set UNSAFE_URL_BYTES_TO_REMOVE) k)"

text \<open>
  A parameter value that is no address at all: it holds no colon, so no scheme, and
  does not start with two slashes (once \<^verbatim>\<open>urlparse\<close> has cleaned it), so no network
  location. The empty default is one.
\<close>

definition no_address :: "string \<Rightarrow> bool" where
  "no_address a = (CHR '':'' \<notin> set a \<and> take 2 (clean_url a) \<noteq> ''//'')"

text \<open>
  A run that returns 0 with the four printed lines as its only events, and a run that
  raises \<open>x\<close> after its first printed line; in both, files and directories stay as they
  were, and no event is a request to the object store or a write to the filesystem.
\<close>

definition quiet_success :: "env \<Rightarrow> string \<Rightarrow> string \<Rightarrow> world \<Rightarrow> bool" where
  "quiet_success e maps_arg config_arg w =
     (fst (main e maps_arg config_arg w) = Inr 0
      \<and> files (snd (main e maps_arg config_arg w)) = files w
      \<and> dirs (snd (main e maps_arg config_arg w)) = dirs w
      \<and> trace (snd (main e maps_arg config_arg w))
          = trace w @ [Print ''Beginning server configuration...'',
              Print ''Skipping custom map download - no map repository provided'',
              Print ''Skipping dynamic configuration - no configuration repository provided'',
              Print ''Server configuration successful - starting SRCDS...'']
      \<and> list_all (\<lambda>ev. \<not> is_remote_call ev \<and> \<not> is_fs_write ev)
          (drop (length (trace w)) (trace (snd (main e maps_arg config_arg w)))))"

definition quiet_abort :: "env \<Rightarrow> string \<Rightarrow> string \<Rightarrow> world \<Rightarrow> error \<Rightarrow> bool" where
  "quiet_abort e maps_arg config_arg w x =
     (fst (main e maps_arg config_arg w) = Inl x
      \<and> files (snd (main e maps_arg config_arg w)) = files w
      \<and> dirs (snd (main e maps_arg config_arg w)) = dirs w
      \<and> trace (snd (main e maps_arg config_arg w))
          = trace w @ [Print ''Beginning server configuration...''])"

text \<open>
  Sample answers of the two checks of \<^verbatim>\<open>urlparse\<close>: one that accepts and one that
  rejects; and the encoding of the character U+2100, whose normal form is \<open>a/c\<close>.
\<close>

definition any_host :: "string \<Rightarrow> bool" where
  "any_host h = True"

definition no_host :: "string \<Rightarrow> bool" where
  "no_host h = False"

definition account_of :: string where
  "account_of = [CHR 0xE2, CHR 0x84, CHR 0x80]"

text \<open>
  A sample deployment: working directory \<open>/srv\<close> with \<open>cfg\<close> and \<open>maps\<close> below it, the
  static manifest of the specification's example in the home directory, and an object
  store that lists three objects under the maps prefix.
\<close>

definition srv_dir :: PurePath where
  "srv_dir = \<lparr>anchor = ''/'', segments = [''srv'']\<rparr>"

definition steam_home :: PurePath where
  "steam_home = \<lparr>anchor = ''/'', segments = [''home'', ''steam'']\<rparr>"

definition scratch_dir :: PurePath where
  "scratch_dir = \<lparr>anchor = ''/'', segments = [''tmp'', ''tmpq1w2e3'']\<rparr>"

definition sample_json_load :: "bytes \<Rightarrow> error + json" where
  "sample_json_load c =
     (if c = ''static''
      then Inr (JObject [(''server.cfg'', JString ''cfg''), (''motd.txt'', JString ''cfg'')])
      else if c = ''dynamic'' then Inr (JObject [(''motd.txt'', JString ''cfg'')])
      else Inl JSONDecodeError)"

definition sample_listing :: "string \<Rightarrow> string \<Rightarrow> string \<Rightarrow> (error + page) list" where
  "sample_listing op b p =
     [Inr (Page (Some [PyDict [(''Key'', ''gmod/maps/a.bsp.bz2'')],
                       PyDict [(''Key'', ''gmod/maps/a.txt'')],
                       PyDict [(''Key'', ''gmod/maps/b.bsp.bz2'')]]))]"

definition sample_env :: env where
  "sample_env =
     \<lparr>host_ok = any_host, netloc_ok = any_host, cwd = srv_dir, home = steam_home, mkdtemp = Inr scratch_dir,
      paginate = sample_listing,
      head_object = (\<lambda>b k. None),
      get_object = (\<lambda>b k. Inr ''dynamic''),
      download_fileobj = (\<lambda>b k. (''bytes of '' @ k, None)),
      bz2_read = (\<lambda>c. (''map data'', None)),
      json_load = sample_json_load\<rparr>"

definition sample_world :: world where
  "sample_world =
     \<lparr>files = [truediv steam_home ''manifest.json'' \<mapsto> ''static''],
      dirs = {srv_dir, truediv srv_dir ''cfg'', truediv srv_dir ''maps'', steam_home},
      trace = []\<rparr>"

definition sample_ctx :: RuntimeContext where
  "sample_ctx =
     \<lparr>map_location = Some \<lparr>bucket = ''fastdl'', key = ''/gmod/maps''\<rparr>,
      config_location = Some \<lparr>bucket = ''configuration'', key = ''/gmod''\<rparr>,
      working_dir = srv_dir, home_dir = steam_home\<rparr>"

text \<open>The same store answering the existence probe with \<open>403 Forbidden\<close>.\<close>

definition denied_env :: env where
  "denied_env = sample_env\<lparr>head_object := (\<lambda>b k. Some (ClientError ''403''))\<rparr>"

text \<open>The same store unreachable: the probe raises an exception that is no \<^verbatim>\<open>ClientError\<close>.\<close>

definition offline_env :: env where
  "offline_env =
     sample_env\<lparr>head_object := (\<lambda>b k. Some (OtherClientFailure ''EndpointConnectionError''))\<rparr>"

text \<open>The same store with nothing under the maps prefix: one page without \<^verbatim>\<open>Contents\<close>.\<close>

definition empty_listing_env :: env where
  "empty_listing_env = sample_env\<lparr>paginate := (\<lambda>op b p. [Inr (Page None)])\<rparr>"

text \<open>The sample world once the scratch directory exists, and with a stale file in \<open>maps\<close>.\<close>

definition scratch_world :: world where
  "scratch_world = sample_world\<lparr>dirs := insert scratch_dir (dirs sample_world)\<rparr>"

definition stale_world :: world where
  "stale_world =
     scratch_world\<lparr>files := (files scratch_world)
        (truediv (truediv srv_dir ''maps'') ''a.bsp.bz2'' \<mapsto> ''earlier content'')\<rparr>"

definition listed_map :: S3Path where
  "listed_map = \<lparr>bucket = ''fastdl'', key = ''gmod/maps/a.bsp.bz2''\<rparr>"

section \<open>Vocabulary of the properties\<close>

text \<open>
  Requests that only the configuration phase sends, and actions that only the maps
  phase performs (opening files and downloading objects occur in both).
\<close>

fun is_config_action :: "event \<Rightarrow> bool" where
  "is_config_action (HeadObject b k) = True"
| "is_config_action (GetObject b k) = True"
| "is_config_action ev = False"

fun is_maps_action :: "event \<Rightarrow> bool" where
  "is_maps_action (ListPage b k) = True"
| "is_maps_action (MkDtemp p) = True"
| "is_maps_action (RmTree p) = True"
| "is_maps_action ev = False"

text \<open>\<open>emits P m\<close>: the action \<open>m\<close> only appends events, and each of them satisfies \<open>P\<close>.\<close>

definition emits :: "(event \<Rightarrow> bool) \<Rightarrow> 'a io \<Rightarrow> bool" where
  "emits P m = (\<forall>w. \<exists>t. trace (snd (m w)) = trace w @ t \<and> list_all P t)"









section \<open>Remote locations: \<^verbatim>\<open>navigate\<close>, \<^verbatim>\<open>from_url\<close>, \<^verbatim>\<open>url\<close>\<close>

lemma split_str_not_Nil: "split_str sep s \<noteq> []"
  by (induction s) (auto split: list.splits)

lemma split_str_no_sep: "sep \<notin> set s \<Longrightarrow> split_str sep s = [s]"
  by (induction s) auto

lemma split_str_append_sep:
  "sep \<notin> set s \<Longrightarrow> split_str sep (s @ sep # t) = s # split_str sep t"
  by (induction s) (auto simp: split_str_not_Nil split: list.splits)

lemma split_join:
  "xs \<noteq> [] \<Longrightarrow> \<forall>x\<in>set xs. sep \<notin> set x \<Longrightarrow> split_str sep (join_str [sep] xs) = xs"
proof (induction "[sep]" xs rule: join_str.induct)
  case 1
  then show ?case by simp
next
  case (2 s)
  then show ?case by (simp add: split_str_no_sep)
next
  case (3 s t ts)
  then show ?case by (simp add: split_str_append_sep)
qed

lemma split_str_parts_no_sep: "x \<in> set (split_str sep s) \<Longrightarrow> sep \<notin> set x"
  by (induction s arbitrary: x) (auto split: if_splits list.splits)

text \<open>
  What \<^verbatim>\<open>navigate\<close> computes: the bucket is kept, the key is one slash followed by
  the join of the old key's split and the given segments, and when no given segment
  holds a slash, splitting the new key after its first character gives that list back.
\<close>

lemma navigate_segments:
  "bucket (navigate loc args) = bucket loc
   \<and> key (navigate loc args) = ''/'' @ join_str ''/'' (split_str CHR ''/'' (key loc) @ args)
   \<and> ((\<forall>a\<in>set args. CHR ''/'' \<notin> set a) \<longrightarrow>
        split_str CHR ''/'' (drop 1 (key (navigate loc args)))
          = split_str CHR ''/'' (key loc) @ args)"
proof -
  have "split_str CHR ''/'' (join_str ''/'' (split_str CHR ''/'' (key loc) @ args))
          = split_str CHR ''/'' (key loc) @ args"
    if "\<forall>a\<in>set args. CHR ''/'' \<notin> set a"
    using that by (intro split_join) (auto simp: split_str_not_Nil dest: split_str_parts_no_sep)
  then show ?thesis by (simp add: navigate_def)
qed

text \<open>
  The split of a key that starts with a slash starts with the empty segment, so the
  join starts with a slash already: the new key of such a location starts with two.
\<close>

lemma navigate_doubles_leading_separator:
  assumes "key loc = CHR ''/'' # ks"
  shows "take 2 (key (navigate loc args)) = ''//''"
proof -
  obtain y ys where "split_str CHR ''/'' ks = y # ys"
    using split_str_not_Nil [of "CHR ''/''" ks] by (cases "split_str CHR ''/'' ks") auto
  then show ?thesis
    using assms by (simp add: navigate_def)
qed

text \<open>
  C4 at the configuration location of the program's own example. \<^verbatim>\<open>from_url\<close> gives
  the address \<open>s3://configuration/gmod\<close> the key \<open>/gmod\<close>; its child \<open>manifest.json\<close>
  has the key \<open>//gmod/manifest.json\<close>, with two leading separators and the segments
  empty, empty, \<open>gmod\<close>, \<open>manifest.json\<close>, not the key \<open>/gmod/manifest.json\<close> of the old
  segments followed by the new one under a single leading separator. The child of the
  location with the empty key is \<open>//manifest.json\<close>. The bucket is kept.
\<close>

theorem navigate_child_of_parsed_location:
  "from_url any_host any_host ''s3://configuration/gmod''
     = Inr (Some \<lparr>bucket = ''configuration'', key = ''/gmod''\<rparr>)
   \<and> navigate \<lparr>bucket = ''configuration'', key = ''/gmod''\<rparr> [''manifest.json'']
       = \<lparr>bucket = ''configuration'', key = ''//gmod/manifest.json''\<rparr>
   \<and> split_str CHR ''/'' ''//gmod/manifest.json'' = [[], [], ''gmod'', ''manifest.json'']
   \<and> split_str CHR ''/'' ''/gmod'' @ [''manifest.json''] = [[], ''gmod'', ''manifest.json'']
   \<and> from_url any_host any_host ''s3://configuration''
       = Inr (Some \<lparr>bucket = ''configuration'', key = []\<rparr>)
   \<and> navigate \<lparr>bucket = ''configuration'', key = []\<rparr> [''manifest.json'']
       = \<lparr>bucket = ''configuration'', key = ''//manifest.json''\<rparr>"
  by code_simp

lemma takeWhile_prefix_stop:
  "\<forall>c\<in>set xs. P c \<Longrightarrow> ys = [] \<or> \<not> P (hd ys) \<Longrightarrow> takeWhile P (xs @ ys) = xs"
  by (cases ys) (simp_all add: takeWhile_append2)

lemma dropWhile_prefix_stop:
  "\<forall>c\<in>set xs. P c \<Longrightarrow> ys = [] \<or> \<not> P (hd ys) \<Longrightarrow> dropWhile P (xs @ ys) = ys"
  by (cases ys) (simp_all add: dropWhile_append2)

lemma clean_url_s3:
  assumes "list_all (\<lambda>c. c \<notin> set UNSAFE_URL_BYTES_TO_REMOVE) rest"
  shows "clean_url (''s3://'' @ rest) = ''s3://'' @ rest"
proof -
  have "filter (\<lambda>c. c \<notin> set UNSAFE_URL_BYTES_TO_REMOVE) rest = rest"
    using assms by (simp add: list_all_iff)
  then show ?thesis
    by (simp add: clean_url_def WHATWG_C0_CONTROL_OR_SPACE_def UNSAFE_URL_BYTES_TO_REMOVE_def)
qed

lemma split_scheme_s3: "split_scheme (''s3://'' @ rest) = (''s3'', ''//'' @ rest)"
  by (simp add: split_scheme_def before_char_def ascii_alpha_def scheme_chars_def
      ascii_lowercase_def ascii_uppercase_def lower_def lower_char_def)

lemma split_netloc_plain:
  assumes "well_formed_address any_host c k"
  shows "clean_url (''s3://'' @ c @ k) = ''s3://'' @ c @ k"
    and "split_netloc hk (''//'' @ c @ k) = Inr (c, k)"
    and "CHR ''?'' \<notin> set k" and "CHR ''#'' \<notin> set k" and "c \<noteq> []"
proof -
  let ?P = "\<lambda>c. c \<notin> set ''/?#''"
  have cc: "\<forall>x\<in>set c. ?P x" and k0: "k = [] \<or> \<not> ?P (hd k)"
    and nb: "CHR ''['' \<notin> set c" "CHR '']'' \<notin> set c"
    using assms by (auto simp: well_formed_address_def list_all_iff)
  have "list_all (\<lambda>c. c \<notin> set UNSAFE_URL_BYTES_TO_REMOVE) (c @ k)"
    using assms by (auto simp: well_formed_address_def list_all_iff)
  then show "clean_url (''s3://'' @ c @ k) = ''s3://'' @ c @ k"
    by (rule clean_url_s3)
  show "split_netloc hk (''//'' @ c @ k) = Inr (c, k)"
    using takeWhile_prefix_stop [OF cc k0] dropWhile_prefix_stop [OF cc k0] nb
    by (simp add: split_netloc_def splitnetloc_def)
  show "CHR ''?'' \<notin> set k" "CHR ''#'' \<notin> set k" "c \<noteq> []"
    using assms by (auto simp: well_formed_address_def list_all_iff)
qed

lemma well_formed_any: "well_formed_address nk c k \<Longrightarrow> well_formed_address any_host c k"
  by (simp add: well_formed_address_def any_host_def)

lemma from_url_well_formed:
  assumes "well_formed_address nk container k"
  shows "from_url hk nk (''s3://'' @ container @ k)
           = Inr (Some \<lparr>bucket = container, key = k\<rparr>)"
proof -
  note p = split_netloc_plain [OF well_formed_any [OF assms]]
  have ck: "checknetloc nk container = None"
    using assms by (auto simp: well_formed_address_def checknetloc_def)
  have "urlsplit hk nk (''s3://'' @ container @ k)
          = Inr \<lparr>scheme = ''s3'', netloc = container, path = k, params = [],
                 query = [], fragment = []\<rparr>"
    using p(2-4) ck unfolding urlsplit_def p(1) split_scheme_s3 by simp
  then show ?thesis
    by (simp add: from_url_def urlparse_def uses_params_def)
qed

lemma from_url_rejected_container:
  assumes "well_formed_address any_host c k" and "\<not> isascii c" and "\<not> nk c"
  shows "\<exists>y. from_url hk nk (''s3://'' @ c @ k) = Inl (ValueError y)"
proof -
  note p = split_netloc_plain [OF assms(1)]
  have ck: "checknetloc nk c
      = Some (ValueError ''netloc contains invalid characters under NFKC normalization'')"
    using p(5) assms(2,3) by (simp add: checknetloc_def)
  have "urlsplit hk nk (''s3://'' @ c @ k)
      = Inl (ValueError ''netloc contains invalid characters under NFKC normalization'')"
    using p(2-4) ck unfolding urlsplit_def p(1) split_scheme_s3 by simp
  then show ?thesis by (simp add: from_url_def urlparse_def)
qed

text \<open>
  C5, as the code has it. For every well-formed address, \<^verbatim>\<open>from_url\<close> followed by
  \<^verbatim>\<open>url\<close> gives the address back; \<^verbatim>\<open>from_url\<close> returns \<^verbatim>\<open>None\<close> for the empty string and
  for every address that \<^verbatim>\<open>urlparse\<close> splits with a scheme other than \<open>s3\<close>; and an
  address that \<^verbatim>\<open>urlparse\<close> rejects makes \<^verbatim>\<open>from_url\<close> raise the same exception, as
  does in particular an address that is well formed but for a container that is not
  pure ASCII and fails the normalisation test.
\<close>

theorem from_url_roundtrip_or_absent:
  "(well_formed_address nk container k \<longrightarrow>
      from_url hk nk (''s3://'' @ container @ k) = Inr (Some \<lparr>bucket = container, key = k\<rparr>)
      \<and> url \<lparr>bucket = container, key = k\<rparr> = ''s3://'' @ container @ k)
   \<and> from_url hk nk [] = Inr None
   \<and> (urlparse hk nk u = Inr r \<and> scheme r \<noteq> ''s3'' \<longrightarrow> from_url hk nk u = Inr None)
   \<and> (urlparse hk nk v = Inl x \<longrightarrow> from_url hk nk v = Inl x)
   \<and> (well_formed_address any_host c j \<and> \<not> isascii c \<and> \<not> nk c \<longrightarrow>
        (\<exists>y. from_url hk nk (''s3://'' @ c @ j) = Inl (ValueError y)))"
proof -
  have a: "from_url hk nk [] = Inr None"
    by (simp add: from_url_def urlparse_def urlsplit_def clean_url_def split_scheme_def
        split_netloc_def before_char_def checknetloc_def)
  have b: "url \<lparr>bucket = container, key = k\<rparr> = ''s3://'' @ container @ k"
    by (simp add: url_def)
  have c: "from_url hk nk u = Inr None" if "urlparse hk nk u = Inr r" "scheme r \<noteq> ''s3''"
    using that by (simp add: from_url_def)
  have d: "from_url hk nk v = Inl x" if "urlparse hk nk v = Inl x"
    using that by (simp add: from_url_def)
  show ?thesis
    using a b c d from_url_well_formed [of nk container k hk]
      from_url_rejected_container [of c j nk hk]
    by blast
qed

theorem from_url_roundtrip_or_absent_witness:
  "well_formed_address no_host ''bucket'' ''/gmod/maps''
   \<and> from_url any_host no_host ''s3://bucket/gmod/maps''
       = Inr (Some \<lparr>bucket = ''bucket'', key = ''/gmod/maps''\<rparr>)
   \<and> url \<lparr>bucket = ''bucket'', key = ''/gmod/maps''\<rparr> = ''s3://bucket/gmod/maps''
   \<and> urlparse any_host no_host ''http://bucket/gmod''
       = Inr \<lparr>scheme = ''http'', netloc = ''bucket'', path = ''/gmod'', params = [],
              query = [], fragment = []\<rparr>
   \<and> from_url any_host no_host ''http://bucket/gmod'' = Inr None
   \<and> urlparse any_host no_host ''s3://]'' = Inl (ValueError ''Invalid IPv6 URL'')
   \<and> from_url any_host no_host ''s3://]'' = Inl (ValueError ''Invalid IPv6 URL'')
   \<and> well_formed_address any_host account_of ''/maps''
   \<and> from_url any_host no_host (''s3://'' @ account_of @ ''/maps'')
       = Inl (ValueError ''netloc contains invalid characters under NFKC normalization'')"
proof -
  have wf: "well_formed_address no_host ''bucket'' ''/gmod/maps''"
    "well_formed_address any_host account_of ''/maps''"
    by code_simp+
  have na: "\<not> isascii account_of" "\<not> no_host account_of"
    by code_simp+
  have p1: "urlparse any_host no_host ''http://bucket/gmod''
              = Inr \<lparr>scheme = ''http'', netloc = ''bucket'', path = ''/gmod'', params = [],
                     query = [], fragment = []\<rparr>"
    by code_simp
  have p2: "urlparse any_host no_host ''s3://]'' = Inl (ValueError ''Invalid IPv6 URL'')"
    by code_simp
  have v: "from_url any_host no_host (''s3://'' @ account_of @ ''/maps'')
       = Inl (ValueError ''netloc contains invalid characters under NFKC normalization'')"
    by code_simp
  show ?thesis
    using wf na p1 p2 v
      from_url_roundtrip_or_absent [of no_host "''bucket''" "''/gmod/maps''" any_host
        "''http://bucket/gmod''"
        "\<lparr>scheme = ''http'', netloc = ''bucket'', path = ''/gmod'', params = [],
          query = [], fragment = []\<rparr>"
        "''s3://]''" "ValueError ''Invalid IPv6 URL''" account_of "''/maps''"]
    by simp
qed

text \<open>
  The claim C5 as the specification states it fails: a malformed address with an
  unbalanced bracket in its container part makes \<^verbatim>\<open>from_url\<close> raise \<^verbatim>\<open>ValueError\<close>
  instead of returning \<^verbatim>\<open>None\<close>.
\<close>

theorem from_url_raises_on_malformed:
  "from_url any_host any_host ''s3://[/maps'' = Inl (ValueError ''Invalid IPv6 URL'')"
  by code_simp

text \<open>
  An address of scheme \<open>s3\<close> without a container is not absent either: the test
  \<^verbatim>\<open>result.netloc is not None\<close> never fails, and the location has the empty bucket.
\<close>

lemma from_url_empty_container:
  "from_url any_host any_host ''s3:///maps'' = Inr (Some \<lparr>bucket = [], key = ''/maps''\<rparr>)"
  by code_simp

section \<open>Manifest resolution\<close>


lemma sample_config_location:
  "config_location sample_ctx = Some \<lparr>bucket = ''configuration'', key = ''/gmod''\<rparr>"
  by (simp add: sample_ctx_def)

lemma sample_manifest_key:
  "key (navigate \<lparr>bucket = ''configuration'', key = ''/gmod''\<rparr> [''manifest.json''])
     = ''//gmod/manifest.json''"
  by code_simp

lemma sample_static_path:
  "static_manifest_path sample_ctx
     = \<lparr>anchor = ''/'', segments = [''home'', ''steam'', ''manifest.json'']\<rparr>"
  by code_simp

lemma sample_static_file:
  "static_manifest_path sample_ctx \<notin> dirs sample_world"
  "files sample_world (static_manifest_path sample_ctx) = Some ''static''"
  "trace sample_world = []"
  by code_simp+


text \<open>
  The claim C1 as the specification states it fails: when the existence probe is
  answered with \<open>403 Forbidden\<close>, which is an object-store error other than not-found,
  manifest resolution does not abort; it returns the static manifest.
\<close>

theorem probe_denied_falls_back:
  "head_object denied_env ''configuration'' ''//gmod/manifest.json'' = Some (ClientError ''403'')
   \<and> fst (config_manifest denied_env sample_ctx sample_world)
       = Inr (JObject [(''server.cfg'', JString ''cfg''), (''motd.txt'', JString ''cfg'')])"
  by code_simp

text \<open>
  C1, as the code has it. When the existence probe raises a \<^verbatim>\<open>ClientError\<close>, whatever
  its error code, manifest resolution falls back to the static manifest: the result is
  the parsed static file and the static file is opened after the probe. When the probe
  raises any other exception, manifest resolution raises that exception, and the probe
  is its only event: there is no fallback.
\<close>

theorem probe_error_policy:
  assumes "config_location ctx = Some loc"
    and "head_object e (bucket loc) (key (navigate loc [''manifest.json''])) = Some x"
  shows "(is_ClientError x \<longrightarrow>
            fst (config_manifest e ctx w)
              = (if static_manifest_path ctx \<in> dirs w then Inl IsADirectoryError
                 else case files w (static_manifest_path ctx) of
                        None \<Rightarrow> Inl FileNotFoundError
                      | Some content \<Rightarrow> json_load e content)
            \<and> trace (snd (config_manifest e ctx w))
              = trace w @ [HeadObject (bucket loc) (key (navigate loc [''manifest.json''])),
                           OpenRead (static_manifest_path ctx)])
       \<and> (\<not> is_ClientError x \<longrightarrow>
            fst (config_manifest e ctx w) = Inl x
            \<and> trace (snd (config_manifest e ctx w))
              = trace w @ [HeadObject (bucket loc) (key (navigate loc [''manifest.json'']))])"
proof -
  have b: "bucket (navigate loc [''manifest.json'']) = bucket loc"
    by (simp add: navigate_def)
  show ?thesis
    using assms
    by (auto simp: config_manifest_def io_bind_def is_object_def open_rb_def emit_def b Let_def
        split: option.splits)
qed

theorem probe_error_policy_witness:
  "is_ClientError (ClientError ''403'')
   \<and> fst (config_manifest denied_env sample_ctx sample_world)
       = Inr (JObject [(''server.cfg'', JString ''cfg''), (''motd.txt'', JString ''cfg'')])
   \<and> trace (snd (config_manifest denied_env sample_ctx sample_world))
       = [HeadObject ''configuration'' ''//gmod/manifest.json'',
          OpenRead \<lparr>anchor = ''/'', segments = [''home'', ''steam'', ''manifest.json'']\<rparr>]
   \<and> fst (config_manifest offline_env sample_ctx sample_world)
       = Inl (OtherClientFailure ''EndpointConnectionError'')
   \<and> trace (snd (config_manifest offline_env sample_ctx sample_world))
       = [HeadObject ''configuration'' ''//gmod/manifest.json'']"
proof -
  let ?loc = "\<lparr>bucket = ''configuration'', key = ''/gmod''\<rparr>"
  have h1: "head_object denied_env (bucket ?loc) (key (navigate ?loc [''manifest.json'']))
            = Some (ClientError ''403'')"
    by (simp add: denied_env_def sample_env_def)
  have h2: "head_object offline_env (bucket ?loc) (key (navigate ?loc [''manifest.json'']))
            = Some (OtherClientFailure ''EndpointConnectionError'')"
    by (simp add: offline_env_def sample_env_def)
  have j: "json_load denied_env ''static''
             = Inr (JObject [(''server.cfg'', JString ''cfg''), (''motd.txt'', JString ''cfg'')])"
    by code_simp
  show ?thesis
    using probe_error_policy [OF sample_config_location h1, of sample_world]
      probe_error_policy [OF sample_config_location h2, of sample_world]
    by (simp add: sample_manifest_key sample_static_path [symmetric] sample_static_file j)
qed

section \<open>The maps phase\<close>

lemma basename_no_slash: "CHR ''/'' \<notin> set (basename k)"
  unfolding basename_def by (auto dest: set_takeWhileD)

lemma parse_anchor_no_slash: "CHR ''/'' \<notin> set s \<Longrightarrow> parse_anchor s = []"
  by (cases s) (auto simp: parse_anchor_def)

lemma tmpfile_under: "is_under t (truediv t (base_name obj))"
  by (simp add: truediv_def base_name_def parse_anchor_no_slash [OF basename_no_slash]
      is_under_def)

lemma download_map_files:
  "p \<noteq> truediv t (base_name obj) \<Longrightarrow> files (snd (download_map e ctx t obj w)) p = files w p"
  by (auto simp: download_map_def io_bind_def open_wb_def open_rb_def s3_get_def emit_def
      copyfileobj_rb_def io_raise_def io_return_def Let_def
      split: prod.splits sum.splits option.splits if_splits)

lemma emit_files: "files (emit ev w) = files w"
  by (simp add: emit_def)

lemma loop_files:
  "\<not> is_under t p \<Longrightarrow> files (snd (download_maps_loop e ctx t items w)) p = files w p"
proof (induction e ctx t items w rule: download_maps_loop.induct)
  case (1 e self tmpdir w)
  then show ?case by simp
next
  case (2 e self tmpdir ev rest w)
  then show ?case by (simp add: emit_files)
next
  case (3 e self tmpdir x rest w)
  then show ?case by simp
next
  case (4 e self tmpdir obj rest w)
  have ne: "p \<noteq> truediv tmpdir (base_name obj)"
    using 4(2) tmpfile_under by blast
  obtain r w1 where d: "download_map e self tmpdir obj w = (r, w1)"
    by (cases "download_map e self tmpdir obj w")
  have f1: "files w1 p = files w p"
    using download_map_files [OF ne, of e self w] d by simp
  show ?case
  proof (cases r)
    case (Inl x)
    then show ?thesis using d f1 by simp
  next
    case (Inr u)
    then show ?thesis using 4(1) [OF d [symmetric] Inr 4(2)] d f1 by simp
  qed
qed

text \<open>
  Whatever the store lists and delivers, the maps phase leaves every file outside its
  scratch directory as it was: \<^verbatim>\<open>download_map\<close> opens the destination for reading only.
\<close>

lemma download_maps_writes_no_map:
  assumes "\<forall>t. mkdtemp e = Inr t \<longrightarrow> \<not> is_under t p"
  shows "files (snd (download_maps e ctx w)) p = files w p"
proof (cases "mkdtemp e")
  case (Inl x)
  then show ?thesis by (simp add: download_maps_def)
next
  case (Inr t)
  then have n: "\<not> is_under t p" using assms by simp
  let ?w1 = "(emit (MkDtemp t) w)\<lparr>dirs := insert t (dirs w)\<rparr>"
  obtain r w2 where l: "download_maps_loop e ctx t (ctx_maps e ctx) ?w1 = (r, w2)"
    by (cases "download_maps_loop e ctx t (ctx_maps e ctx) ?w1")
  have "files w2 p = files ?w1 p"
    using loop_files [OF n, of e ctx "ctx_maps e ctx" ?w1] l by simp
  then show ?thesis
    using Inr n l by (simp add: download_maps_def cleanup_def Let_def emit_def)
qed

text \<open>
  C2 at the listing of the specification's example. The store lists \<open>a.bsp.bz2\<close>,
  \<open>a.txt\<close> and \<open>b.bsp.bz2\<close> under the maps prefix. \<^verbatim>\<open>download_maps\<close> raises \<^verbatim>\<open>TypeError\<close>
  at the first listed object, because \<^verbatim>\<open>ls\<close> calls \<^verbatim>\<open>from_object\<close> with one argument,
  and neither \<open>maps/a.bsp\<close> nor \<open>maps/b.bsp\<close> exists afterwards. \<^verbatim>\<open>download_map\<close> called
  on the first map directly opens \<open>maps/a.bsp.bz2\<close> (the name is not stripped) for
  reading: it raises \<^verbatim>\<open>FileNotFoundError\<close> when that file does not exist and
  \<^verbatim>\<open>UnsupportedOperation\<close> when it does, leaving its earlier content; \<open>maps/a.bsp\<close> is not
  written in either case.
\<close>

theorem maps_sync_of_listing_raises:
  "paginate sample_env ''list_objects_v2'' ''fastdl'' ''/gmod/maps''
     = [Inr (Page (Some [PyDict [(''Key'', ''gmod/maps/a.bsp.bz2'')],
                         PyDict [(''Key'', ''gmod/maps/a.txt'')],
                         PyDict [(''Key'', ''gmod/maps/b.bsp.bz2'')]]))]
   \<and> fst (download_maps sample_env sample_ctx sample_world)
       = Inl (TypeError ''missing 1 required positional argument: object'')
   \<and> files (snd (download_maps sample_env sample_ctx sample_world))
       (truediv (map_dir sample_ctx) ''a.bsp'') = None
   \<and> files (snd (download_maps sample_env sample_ctx sample_world))
       (truediv (map_dir sample_ctx) ''b.bsp'') = None
   \<and> fst (download_map sample_env sample_ctx scratch_dir listed_map scratch_world)
       = Inl FileNotFoundError
   \<and> last (trace (snd (download_map sample_env sample_ctx scratch_dir listed_map scratch_world)))
       = OpenRead \<lparr>anchor = ''/'', segments = [''srv'', ''maps'', ''a.bsp.bz2'']\<rparr>
   \<and> files (snd (download_map sample_env sample_ctx scratch_dir listed_map scratch_world))
       (truediv (map_dir sample_ctx) ''a.bsp'') = None
   \<and> fst (download_map sample_env sample_ctx scratch_dir listed_map stale_world)
       = Inl (UnsupportedOperation ''write'')
   \<and> files (snd (download_map sample_env sample_ctx scratch_dir listed_map stale_world))
       (truediv (map_dir sample_ctx) ''a.bsp.bz2'') = Some ''earlier content''
   \<and> files (snd (download_map sample_env sample_ctx scratch_dir listed_map stale_world))
       (truediv (map_dir sample_ctx) ''a.bsp'') = None"
  by code_simp

text \<open>
  C7. When \<^verbatim>\<open>download_maps\<close> ends, with a result or with an exception, no file and no
  directory exists at or below the scratch directory it created, and removing the
  scratch directory is the last thing it did.
\<close>

theorem scratch_removed:
  assumes "mkdtemp e = Inr t"
  shows "(\<forall>p. is_under t p \<longrightarrow>
            files (snd (download_maps e ctx w)) p = None
            \<and> p \<notin> dirs (snd (download_maps e ctx w)))
       \<and> last (trace (snd (download_maps e ctx w))) = RmTree t"
  using assms by (simp add: download_maps_def cleanup_def Let_def split: prod.splits)

lemma sample_mkdtemp:
  "mkdtemp sample_env = Inr scratch_dir" "mkdtemp empty_listing_env = Inr scratch_dir"
  by (simp_all add: sample_env_def empty_listing_env_def)

theorem scratch_removed_witness:
  "mkdtemp sample_env = Inr scratch_dir
   \<and> is_under scratch_dir scratch_dir
   \<and> is_under scratch_dir (truediv scratch_dir ''a.bsp.bz2'')
   \<and> fst (download_maps sample_env sample_ctx sample_world)
       = Inl (TypeError ''missing 1 required positional argument: object'')
   \<and> files (snd (download_maps sample_env sample_ctx sample_world))
       (truediv scratch_dir ''a.bsp.bz2'') = None
   \<and> scratch_dir \<notin> dirs (snd (download_maps sample_env sample_ctx sample_world))
   \<and> last (trace (snd (download_maps sample_env sample_ctx sample_world))) = RmTree scratch_dir"
proof -
  have u: "is_under scratch_dir scratch_dir"
    "is_under scratch_dir (truediv scratch_dir ''a.bsp.bz2'')"
    by code_simp+
  have r: "fst (download_maps sample_env sample_ctx sample_world)
       = Inl (TypeError ''missing 1 required positional argument: object'')"
    by code_simp
  show ?thesis
    using scratch_removed [OF sample_mkdtemp(1), of sample_ctx sample_world] u r sample_mkdtemp(1)
    by blast
qed

lemma loop_stops_at_raise:
  "\<exists>x. GRaise x \<in> set items \<Longrightarrow> \<exists>y. fst (download_maps_loop e ctx t items w) = Inl y"
proof (induction e ctx t items w rule: download_maps_loop.induct)
  case (1 e self tmpdir w)
  then show ?case by simp
next
  case (2 e self tmpdir ev rest w)
  then show ?case by simp
next
  case (3 e self tmpdir x rest w)
  then show ?case by simp
next
  case (4 e self tmpdir obj rest w)
  then show ?case by (auto split: prod.splits sum.splits)
qed

lemma ls_page_empty:
  "ls_page loc (Inr (Page None))
     = [GEvent (ListPage (bucket loc) (key loc)), GRaise (KeyError ''Contents'')]"
  by (simp add: ls_page_def)

lemma empty_page_in_maps:
  assumes "map_location ctx = Some loc"
    and "Inr (Page None) \<in> set (paginate e ''list_objects_v2'' (bucket loc) (key loc))"
  shows "GRaise (KeyError ''Contents'') \<in> set (ctx_maps e ctx)"
proof -
  have "GRaise (KeyError ''Contents'') \<in> set (ls_page loc (Inr (Page None)))"
    by (simp add: ls_page_empty)
  then have "GRaise (KeyError ''Contents'') \<in> set (ls e loc)"
    using assms(2) unfolding ls_def by auto
  then show ?thesis
    using assms(1) by (simp add: ctx_maps_def)
qed

text \<open>
  C10. When a page of the listing has no \<^verbatim>\<open>Contents\<close> entry, \<^verbatim>\<open>download_maps\<close> and
  with it the maps phase end with an exception. When the listing is that one page, as
  for a prefix that matches no object, \<^verbatim>\<open>ls\<close> requests the page and raises
  \<^verbatim>\<open>KeyError\<close> instead of yielding nothing, and \<^verbatim>\<open>download_maps\<close> raises that
  \<^verbatim>\<open>KeyError\<close>.
\<close>

theorem empty_listing_raises:
  assumes "map_location ctx = Some loc"
  shows "(Inr (Page None) \<in> set (paginate e ''list_objects_v2'' (bucket loc) (key loc)) \<longrightarrow>
            (\<exists>x. fst (download_maps e ctx w) = Inl x)
            \<and> (\<exists>x. fst (maps_phase e ctx w) = Inl x))
       \<and> (paginate e ''list_objects_v2'' (bucket loc) (key loc) = [Inr (Page None)] \<longrightarrow>
            ls e loc = [GEvent (ListPage (bucket loc) (key loc)), GRaise (KeyError ''Contents'')]
            \<and> (\<forall>t. mkdtemp e = Inr t \<longrightarrow>
                  fst (download_maps e ctx w) = Inl (KeyError ''Contents'')))"
proof -
  have dm: "\<exists>x. fst (download_maps e ctx w') = Inl x"
    if "Inr (Page None) \<in> set (paginate e ''list_objects_v2'' (bucket loc) (key loc))" for w'
  proof (cases "mkdtemp e")
    case (Inl x)
    then show ?thesis by (simp add: download_maps_def)
  next
    case (Inr t)
    have "\<exists>x. GRaise x \<in> set (ctx_maps e ctx)"
      using empty_page_in_maps [OF assms that] by blast
    from loop_stops_at_raise [OF this]
    show ?thesis
      using Inr by (simp add: download_maps_def Let_def split: prod.splits) (metis fst_conv)
  qed
  have mp: "\<exists>x. fst (maps_phase e ctx w) = Inl x"
    if "Inr (Page None) \<in> set (paginate e ''list_objects_v2'' (bucket loc) (key loc))"
    using dm [OF that] assms
    by (simp add: maps_phase_def is_maps_provided_def io_bind_def io_print_def
        split: prod.splits sum.splits)
  have single:
    "ls e loc = [GEvent (ListPage (bucket loc) (key loc)), GRaise (KeyError ''Contents'')]"
    if "paginate e ''list_objects_v2'' (bucket loc) (key loc) = [Inr (Page None)]"
    using that by (simp add: ls_def ls_page_empty)
  have single2: "fst (download_maps e ctx w) = Inl (KeyError ''Contents'')"
    if "paginate e ''list_objects_v2'' (bucket loc) (key loc) = [Inr (Page None)]"
      "mkdtemp e = Inr t" for t
    using single [OF that(1)] that(2) assms
    by (simp add: download_maps_def ctx_maps_def Let_def)
  show ?thesis using dm mp single single2 by blast
qed

theorem empty_listing_raises_witness:
  "map_location sample_ctx = Some \<lparr>bucket = ''fastdl'', key = ''/gmod/maps''\<rparr>
   \<and> paginate empty_listing_env ''list_objects_v2'' ''fastdl'' ''/gmod/maps'' = [Inr (Page None)]
   \<and> mkdtemp empty_listing_env = Inr scratch_dir
   \<and> ls empty_listing_env \<lparr>bucket = ''fastdl'', key = ''/gmod/maps''\<rparr>
       = [GEvent (ListPage ''fastdl'' ''/gmod/maps''), GRaise (KeyError ''Contents'')]
   \<and> fst (download_maps empty_listing_env sample_ctx sample_world) = Inl (KeyError ''Contents'')
   \<and> fst (maps_phase empty_listing_env sample_ctx sample_world) = Inl (KeyError ''Contents'')"
proof -
  have m: "map_location sample_ctx = Some \<lparr>bucket = ''fastdl'', key = ''/gmod/maps''\<rparr>"
    by (simp add: sample_ctx_def)
  have p: "paginate empty_listing_env ''list_objects_v2'' ''fastdl'' ''/gmod/maps''
             = [Inr (Page None)]"
    by (simp add: empty_listing_env_def)
  have q: "fst (maps_phase empty_listing_env sample_ctx sample_world)
             = Inl (KeyError ''Contents'')"
    by code_simp
  show ?thesis
    using empty_listing_raises [OF m, of empty_listing_env sample_world] m p q sample_mkdtemp(2)
    by simp
qed

section \<open>Events of the two phases\<close>

lemma emitsI:
  "(\<And>w. \<exists>t. trace (snd (m w)) = trace w @ t \<and> list_all P t) \<Longrightarrow> emits P m"
  by (simp add: emits_def)

lemma emitsD: "emits P m \<Longrightarrow> \<exists>t. trace (snd (m w)) = trace w @ t \<and> list_all P t"
  by (simp add: emits_def)

lemma emits_return: "emits P (io_return x)"
  by (simp add: emits_def io_return_def)

lemma emits_raise: "emits P (io_raise x)"
  by (simp add: emits_def io_raise_def)

lemma emits_print: "P (Print msg) \<Longrightarrow> emits P (io_print msg)"
  by (simp add: emits_def io_print_def emit_def)

lemma emits_bind:
  assumes "emits P m" and "\<And>x. emits P (f x)"
  shows "emits P (io_bind m f)"
proof (rule emitsI)
  fix w
  obtain r w1 where mw: "m w = (r, w1)" by (cases "m w")
  from emitsD [OF assms(1), of w] mw
  obtain t1 where t1: "trace w1 = trace w @ t1" "list_all P t1" by auto
  show "\<exists>t. trace (snd (io_bind m f w)) = trace w @ t \<and> list_all P t"
  proof (cases r)
    case (Inl x)
    then show ?thesis using mw t1 by (simp add: io_bind_def)
  next
    case (Inr x)
    from emitsD [OF assms(2), of x w1]
    obtain t2 where "trace (snd (f x w1)) = trace w1 @ t2" "list_all P t2" by auto
    then show ?thesis using mw t1 Inr by (simp add: io_bind_def)
  qed
qed

lemma emits_open_wb: "P (OpenWrite p) \<Longrightarrow> emits P (open_wb p)"
  by (simp add: emits_def open_wb_def emit_def Let_def)

lemma emits_open_rb: "P (OpenRead p) \<Longrightarrow> emits P (open_rb p)"
  by (simp add: emits_def open_rb_def emit_def Let_def split: option.splits)

lemma emits_s3_get: "P (DownloadFileobj (bucket obj) (key obj) p) \<Longrightarrow> emits P (s3_get e obj p)"
  by (simp add: emits_def s3_get_def emit_def Let_def split: prod.splits option.splits)

lemma emits_is_object: "P (HeadObject (bucket obj) (key obj)) \<Longrightarrow> emits P (is_object e obj)"
  by (simp add: emits_def is_object_def emit_def Let_def split: option.splits)

lemma emits_load_json: "P (GetObject (bucket obj) (key obj)) \<Longrightarrow> emits P (load_json e obj)"
  by (simp add: emits_def load_json_def emit_def Let_def split: sum.splits)

lemma emits_copyfileobj_rb: "emits P (copyfileobj_rb e c)"
  by (simp add: copyfileobj_rb_def emits_return emits_raise split: prod.splits option.splits)

lemma emits_download_map:
  assumes "\<And>p. P (OpenWrite p)" "\<And>p. P (OpenRead p)" "\<And>b k p. P (DownloadFileobj b k p)"
  shows "emits P (download_map e ctx t obj)"
  unfolding download_map_def Let_def
  by (intro emits_bind emits_open_wb emits_open_rb emits_s3_get emits_copyfileobj_rb assms)

lemma loop_trace:
  assumes "\<And>p. P (OpenWrite p)" "\<And>p. P (OpenRead p)" "\<And>b k p. P (DownloadFileobj b k p)"
    and "\<forall>ev. GEvent ev \<in> set items \<longrightarrow> P ev"
  shows "\<exists>tr. trace (snd (download_maps_loop e ctx t items w)) = trace w @ tr \<and> list_all P tr"
  using assms(4)
proof (induction e ctx t items w rule: download_maps_loop.induct)
  case (1 e self tmpdir w)
  then show ?case by simp
next
  case (2 e self tmpdir ev rest w)
  then obtain tr where "trace (snd (download_maps_loop e self tmpdir rest (emit ev w)))
      = trace (emit ev w) @ tr" "list_all P tr" by auto
  moreover have "P ev" using 2 by simp
  ultimately show ?case by (simp add: emit_def)
next
  case (3 e self tmpdir x rest w)
  then show ?case by simp
next
  case (4 e self tmpdir obj rest w)
  obtain r w1 where d: "download_map e self tmpdir obj w = (r, w1)"
    by (cases "download_map e self tmpdir obj w")
  from emitsD [OF emits_download_map [of P e self tmpdir obj], OF assms(1-3), of w] d
  obtain t1 where t1: "trace w1 = trace w @ t1" "list_all P t1" by auto
  show ?case
  proof (cases r)
    case (Inl x)
    then show ?thesis using d t1 by simp
  next
    case (Inr u)
    with 4 d obtain tr where "trace (snd (download_maps_loop e self tmpdir rest w1))
      = trace w1 @ tr" "list_all P tr" by auto
    then show ?thesis using d t1 Inr by simp
  qed
qed

lemma ls_page_events:
  "GEvent ev \<in> set (ls_page loc pg) \<Longrightarrow> ev = ListPage (bucket loc) (key loc)"
  by (auto simp: ls_page_def split: sum.splits)

lemma ctx_maps_events: "GEvent ev \<in> set (ctx_maps e ctx) \<Longrightarrow> \<exists>b k. ev = ListPage b k"
  by (auto simp: ctx_maps_def ls_def dest: ls_page_events split: option.splits)

lemma emits_download_maps:
  assumes "\<And>p. P (OpenWrite p)" "\<And>p. P (OpenRead p)" "\<And>b k p. P (DownloadFileobj b k p)"
    and "\<And>b k. P (ListPage b k)" "\<And>p. P (MkDtemp p)" "\<And>p. P (RmTree p)"
  shows "emits P (download_maps e ctx)"
proof (rule emitsI)
  fix w
  show "\<exists>t. trace (snd (download_maps e ctx w)) = trace w @ t \<and> list_all P t"
  proof (cases "mkdtemp e")
    case (Inl x)
    then show ?thesis by (simp add: download_maps_def)
  next
    case (Inr tmpdir)
    let ?w1 = "(emit (MkDtemp tmpdir) w)\<lparr>dirs := insert tmpdir (dirs w)\<rparr>"
    have "\<forall>ev. GEvent ev \<in> set (ctx_maps e ctx) \<longrightarrow> P ev"
      using ctx_maps_events assms(4) by blast
    from loop_trace [of P "ctx_maps e ctx" e ctx tmpdir ?w1, OF assms(1-3) this]
    obtain tr where tr: "trace (snd (download_maps_loop e ctx tmpdir (ctx_maps e ctx) ?w1))
        = trace ?w1 @ tr" "list_all P tr" by auto
    obtain r w2 where l: "download_maps_loop e ctx tmpdir (ctx_maps e ctx) ?w1 = (r, w2)"
      by (cases "download_maps_loop e ctx tmpdir (ctx_maps e ctx) ?w1")
    have "trace (snd (download_maps e ctx w)) = trace w @ (MkDtemp tmpdir # tr @ [RmTree tmpdir])"
      using Inr l tr(1) by (simp add: download_maps_def cleanup_def emit_def Let_def)
    moreover have "list_all P (MkDtemp tmpdir # tr @ [RmTree tmpdir])"
      using tr(2) assms(5,6) by simp
    ultimately show ?thesis by blast
  qed
qed

lemma emits_maps_phase: "emits (\<lambda>ev. \<not> is_config_action ev) (maps_phase e ctx)"
  unfolding maps_phase_def
  by (auto intro!: emits_bind emits_print emits_raise emits_download_maps split: option.splits)

lemma emits_Pair: "emits P (Pair r)"
  by (simp add: emits_def)

lemma emits_config_manifest: "emits (\<lambda>ev. \<not> is_maps_action ev) (config_manifest e ctx)"
  unfolding config_manifest_def Let_def
  by (auto intro!: emits_bind emits_raise emits_is_object emits_load_json emits_open_rb
      emits_Pair split: option.splits)

lemma emits_download_configuration_file:
  "emits (\<lambda>ev. \<not> is_maps_action ev) (download_configuration_file e ctx f d)"
  unfolding download_configuration_file_def Let_def
  by (auto intro!: emits_bind emits_raise emits_open_wb emits_s3_get split: option.splits json.splits)

lemma config_loop_trace:
  "\<exists>tr. trace (snd (download_configuration_loop e ctx entries w)) = trace w @ tr
        \<and> list_all (\<lambda>ev. \<not> is_maps_action ev) tr"
proof (induction e ctx entries w rule: download_configuration_loop.induct)
  case (1 e self w)
  then show ?case by simp
next
  case (2 e self filename directory rest w)
  obtain r w1 where d: "download_configuration_file e self filename directory w = (r, w1)"
    by (cases "download_configuration_file e self filename directory w")
  from emitsD [OF emits_download_configuration_file, of e self filename directory w] d
  obtain t1 where t1: "trace w1 = trace w @ t1" "list_all (\<lambda>ev. \<not> is_maps_action ev) t1" by auto
  show ?case
  proof (cases r)
    case (Inl x)
    then show ?thesis using d t1 by simp
  next
    case (Inr u)
    with 2 d obtain tr where "trace (snd (download_configuration_loop e self rest w1))
      = trace w1 @ tr" "list_all (\<lambda>ev. \<not> is_maps_action ev) tr" by auto
    then show ?thesis using d t1 Inr by simp
  qed
qed

lemma emits_config_loop:
  "emits (\<lambda>ev. \<not> is_maps_action ev) (download_configuration_loop e ctx entries)"
  by (rule emitsI) (rule config_loop_trace)

lemma emits_download_configuration_files:
  "emits (\<lambda>ev. \<not> is_maps_action ev) (download_configuration_files e ctx)"
  unfolding download_configuration_files_def
  by (auto intro!: emits_bind emits_config_manifest emits_raise emits_config_loop
      split: json.splits)

lemma emits_config_phase: "emits (\<lambda>ev. \<not> is_maps_action ev) (config_phase e ctx)"
  unfolding config_phase_def
  by (auto intro!: emits_bind emits_print emits_raise emits_download_configuration_files
      split: option.splits)

lemma emits_config_tail:
  "emits (\<lambda>ev. \<not> is_maps_action ev)
     (io_bind (config_phase e ctx) (\<lambda>v.
        io_bind (io_print ''Server configuration successful - starting SRCDS...'') (\<lambda>x.
          io_return (0::int))))"
  by (auto intro!: emits_bind emits_print emits_return emits_config_phase)

lemma sample_from_urls:
  "from_urls sample_env ''s3://fastdl/gmod/maps'' ''s3://configuration/gmod'' = Inr sample_ctx"
  by code_simp

text \<open>
  C6. The events of a run are those of the maps phase followed by those of the
  configuration phase: the trace splits into a first part without any request that
  only the configuration phase sends (existence probe, manifest fetch) and a second part
  without any action that only the maps phase performs (listing, creating and removing
  the scratch directory). When the maps phase raises, \<^verbatim>\<open>main\<close> raises the same exception,
  the final state is the state the maps phase left, and no such request was sent.
\<close>

theorem maps_phase_before_config_phase:
  "(\<exists>t1 t2. trace (snd (main e maps_arg config_arg w)) = trace w @ t1 @ t2
        \<and> list_all (\<lambda>ev. \<not> is_config_action ev) t1
        \<and> list_all (\<lambda>ev. \<not> is_maps_action ev) t2)
   \<and> (\<forall>ctx x. from_urls e maps_arg config_arg = Inr ctx
         \<and> fst (maps_phase e ctx (emit (Print ''Beginning server configuration...'') w)) = Inl x
        \<longrightarrow> fst (main e maps_arg config_arg w) = Inl x
            \<and> snd (main e maps_arg config_arg w)
                = snd (maps_phase e ctx (emit (Print ''Beginning server configuration...'') w))
            \<and> list_all (\<lambda>ev. \<not> is_config_action ev)
                (drop (length (trace w)) (trace (snd (main e maps_arg config_arg w)))))"
proof -
  let ?w1 = "emit (Print ''Beginning server configuration...'') w"
  have order: "\<exists>t1 t2. trace (snd (main e maps_arg config_arg w)) = trace w @ t1 @ t2
        \<and> list_all (\<lambda>ev. \<not> is_config_action ev) t1
        \<and> list_all (\<lambda>ev. \<not> is_maps_action ev) t2"
  proof (cases "from_urls e maps_arg config_arg")
    case (Inl x)
    have "trace (snd (main e maps_arg config_arg w))
        = trace w @ [Print ''Beginning server configuration...''] @ []"
      using Inl by (simp add: main_def emit_def)
    moreover have "list_all (\<lambda>ev. \<not> is_config_action ev)
        [Print ''Beginning server configuration...'']"
      by simp
    moreover have "list_all (\<lambda>ev. \<not> is_maps_action ev) []"
      by simp
    ultimately show ?thesis by blast
  next
    case (Inr ctx)
    obtain r w2 where m: "maps_phase e ctx ?w1 = (r, w2)" by (cases "maps_phase e ctx ?w1")
    from emitsD [OF emits_maps_phase, of e ctx ?w1] m
    obtain tm where tm: "trace w2 = trace ?w1 @ tm" "list_all (\<lambda>ev. \<not> is_config_action ev) tm"
      by auto
    have first: "list_all (\<lambda>ev. \<not> is_config_action ev)
        (Print ''Beginning server configuration...'' # tm)"
      using tm by simp
    show ?thesis
    proof (cases r)
      case (Inl x)
      then have "trace (snd (main e maps_arg config_arg w))
          = trace w @ (Print ''Beginning server configuration...'' # tm) @ []"
        using Inr m tm by (simp add: main_def io_bind_def emit_def)
      moreover have "list_all (\<lambda>ev. \<not> is_maps_action ev) []"
        by simp
      ultimately show ?thesis using first by blast
    next
      case (Inr u)
      from emitsD [OF emits_config_tail, of e ctx w2]
      obtain tc where tc: "trace (snd (io_bind (config_phase e ctx) (\<lambda>v.
          io_bind (io_print ''Server configuration successful - starting SRCDS...'') (\<lambda>x.
          io_return (0::int))) w2)) = trace w2 @ tc" "list_all (\<lambda>ev. \<not> is_maps_action ev) tc"
        by auto
      have "trace (snd (main e maps_arg config_arg w))
          = trace w @ (Print ''Beginning server configuration...'' # tm) @ tc"
        using \<open>from_urls e maps_arg config_arg = Inr ctx\<close> m tm tc Inr
        by (simp add: main_def io_bind_def [of "maps_phase e ctx"] emit_def)
      then show ?thesis using first tc(2) by blast
    qed
  qed
  have abort: "fst (main e maps_arg config_arg w) = Inl x
      \<and> snd (main e maps_arg config_arg w) = snd (maps_phase e ctx ?w1)
      \<and> list_all (\<lambda>ev. \<not> is_config_action ev)
          (drop (length (trace w)) (trace (snd (main e maps_arg config_arg w))))"
    if u: "from_urls e maps_arg config_arg = Inr ctx" and f: "fst (maps_phase e ctx ?w1) = Inl x"
    for ctx x
  proof -
    have eq: "fst (main e maps_arg config_arg w) = Inl x
      \<and> snd (main e maps_arg config_arg w) = snd (maps_phase e ctx ?w1)"
      using u f
      by (cases "maps_phase e ctx ?w1") (simp add: main_def io_bind_def [of "maps_phase e ctx"])
    from emitsD [OF emits_maps_phase, of e ctx ?w1]
    obtain tm where "trace (snd (maps_phase e ctx ?w1)) = trace ?w1 @ tm"
      "list_all (\<lambda>ev. \<not> is_config_action ev) tm" by auto
    then have "list_all (\<lambda>ev. \<not> is_config_action ev)
          (drop (length (trace w)) (trace (snd (main e maps_arg config_arg w))))"
      using eq by (simp add: emit_def)
    then show ?thesis using eq by simp
  qed
  show ?thesis using order abort by blast
qed

theorem maps_phase_before_config_phase_witness:
  "from_urls sample_env ''s3://fastdl/gmod/maps'' ''s3://configuration/gmod'' = Inr sample_ctx
   \<and> fst (maps_phase sample_env sample_ctx
            (emit (Print ''Beginning server configuration...'') sample_world))
       = Inl (TypeError ''missing 1 required positional argument: object'')
   \<and> fst (main sample_env ''s3://fastdl/gmod/maps'' ''s3://configuration/gmod'' sample_world)
       = Inl (TypeError ''missing 1 required positional argument: object'')
   \<and> snd (main sample_env ''s3://fastdl/gmod/maps'' ''s3://configuration/gmod'' sample_world)
       = snd (maps_phase sample_env sample_ctx
               (emit (Print ''Beginning server configuration...'') sample_world))
   \<and> list_all (\<lambda>ev. \<not> is_config_action ev)
       (drop (length (trace sample_world))
          (trace (snd (main sample_env ''s3://fastdl/gmod/maps'' ''s3://configuration/gmod''
                         sample_world))))"
proof -
  have f: "fst (maps_phase sample_env sample_ctx
            (emit (Print ''Beginning server configuration...'') sample_world))
       = Inl (TypeError ''missing 1 required positional argument: object'')"
    by code_simp
  show ?thesis
    using maps_phase_before_config_phase [of sample_env "''s3://fastdl/gmod/maps''"
        "''s3://configuration/gmod''" sample_world] sample_from_urls f
    by blast
qed

section \<open>A run without sources\<close>

lemma clean_url_subset: "set (clean_url a) \<subseteq> set a"
  unfolding clean_url_def using set_dropWhileD by fastforce

lemma urlparse_no_address:
  assumes "no_address a"
  shows "\<exists>r. urlparse hk nk a = Inr r \<and> scheme r = []"
proof -
  have nc: "CHR '':'' \<notin> set (clean_url a)"
    using assms clean_url_subset [of a] by (auto simp: no_address_def)
  have ns: "take 2 (clean_url a) \<noteq> ''//''"
    using assms by (simp add: no_address_def)
  have s: "split_scheme (clean_url a) = ([], clean_url a)"
    using nc by (simp add: split_scheme_def)
  have n: "split_netloc hk (clean_url a) = Inr ([], clean_url a)"
    using ns by (simp add: split_netloc_def)
  have "\<exists>r. urlsplit hk nk a = Inr r \<and> scheme r = []"
    unfolding urlsplit_def s using n
    by (simp add: checknetloc_def Let_def split: prod.splits)
  then show ?thesis
    by (auto simp: urlparse_def Let_def split: prod.splits)
qed

lemma main_without_locations:
  assumes "from_url (host_ok e) (netloc_ok e) maps_arg = Inr None"
    and "from_url (host_ok e) (netloc_ok e) config_arg = Inr None"
  shows "quiet_success e maps_arg config_arg w"
  using assms
  by (simp add: quiet_success_def main_def from_urls_def maps_phase_def config_phase_def
      is_maps_provided_def is_config_provided_def io_bind_def io_print_def io_return_def
      emit_def)

lemma main_parse_raises:
  assumes "from_urls e maps_arg config_arg = Inl x"
  shows "quiet_abort e maps_arg config_arg w x"
  using assms by (simp add: quiet_abort_def main_def emit_def)

text \<open>
  The claim C8 as the specification states it fails: with the unparsable maps address
  \<open>s3://[/maps\<close> and no config address, the run does not return 0; it raises
  \<^verbatim>\<open>ValueError\<close>.
\<close>

theorem unparsable_source_aborts:
  "fst (main sample_env ''s3://[/maps'' [] sample_world) = Inl (ValueError ''Invalid IPv6 URL'')"
  by code_simp

text \<open>
  C8, as the code has it. When both parameters are no addresses (the empty default
  among them), or are split by \<^verbatim>\<open>urlparse\<close> with a scheme other than \<open>s3\<close>, \<^verbatim>\<open>main\<close>
  returns 0, files and directories are what they were, and the events of the run are
  its four printed lines: no request to the object store and no write to the
  filesystem. When \<^verbatim>\<open>urlparse\<close> raises on the maps parameter, or on the config parameter
  after splitting the maps parameter, \<^verbatim>\<open>main\<close> raises that exception after its first
  printed line, with files and directories what they were.
\<close>

theorem sources_absent_or_rejected:
  "(no_address maps_arg \<and> no_address config_arg \<longrightarrow> quiet_success e maps_arg config_arg w)
   \<and> (urlparse (host_ok e) (netloc_ok e) maps_arg = Inr r1 \<and> scheme r1 \<noteq> ''s3''
        \<and> urlparse (host_ok e) (netloc_ok e) config_arg = Inr r2 \<and> scheme r2 \<noteq> ''s3''
       \<longrightarrow> quiet_success e maps_arg config_arg w)
   \<and> (urlparse (host_ok e) (netloc_ok e) maps_arg = Inl x
       \<longrightarrow> quiet_abort e maps_arg config_arg w x)
   \<and> (urlparse (host_ok e) (netloc_ok e) maps_arg = Inr r1
        \<and> urlparse (host_ok e) (netloc_ok e) config_arg = Inl x
       \<longrightarrow> quiet_abort e maps_arg config_arg w x)"
proof -
  have other: "from_url (host_ok e) (netloc_ok e) u = Inr None"
    if "urlparse (host_ok e) (netloc_ok e) u = Inr r" "scheme r \<noteq> ''s3''" for u r
    using that by (simp add: from_url_def)
  have plain: "from_url (host_ok e) (netloc_ok e) u = Inr None" if "no_address u" for u
  proof -
    from urlparse_no_address [OF that, of "host_ok e" "netloc_ok e"]
    obtain r where "urlparse (host_ok e) (netloc_ok e) u = Inr r" "scheme r = []" by blast
    then show ?thesis using other [of u r] by simp
  qed
  have a: "quiet_success e maps_arg config_arg w"
    if "no_address maps_arg" "no_address config_arg"
    using main_without_locations [OF plain [OF that(1)] plain [OF that(2)]] .
  have b: "quiet_success e maps_arg config_arg w"
    if "urlparse (host_ok e) (netloc_ok e) maps_arg = Inr r1" "scheme r1 \<noteq> ''s3''"
      "urlparse (host_ok e) (netloc_ok e) config_arg = Inr r2" "scheme r2 \<noteq> ''s3''"
    using main_without_locations [OF other [OF that(1,2)] other [OF that(3,4)]] .
  have c: "quiet_abort e maps_arg config_arg w x"
    if "urlparse (host_ok e) (netloc_ok e) maps_arg = Inl x"
  proof (rule main_parse_raises)
    show "from_urls e maps_arg config_arg = Inl x"
      using that by (simp add: from_urls_def from_url_def)
  qed
  have d: "quiet_abort e maps_arg config_arg w x"
    if "urlparse (host_ok e) (netloc_ok e) maps_arg = Inr r1"
      "urlparse (host_ok e) (netloc_ok e) config_arg = Inl x"
  proof (rule main_parse_raises)
    show "from_urls e maps_arg config_arg = Inl x"
      using that by (simp add: from_urls_def from_url_def)
  qed
  show ?thesis using a b c d by blast
qed

theorem sources_absent_or_rejected_witness:
  "no_address [] \<and> no_address ''not set''
   \<and> quiet_success sample_env [] ''not set'' sample_world
   \<and> fst (main sample_env [] ''not set'' sample_world) = Inr 0
   \<and> trace (snd (main sample_env [] ''not set'' sample_world))
       = [Print ''Beginning server configuration...'',
          Print ''Skipping custom map download - no map repository provided'',
          Print ''Skipping dynamic configuration - no configuration repository provided'',
          Print ''Server configuration successful - starting SRCDS...'']
   \<and> quiet_success sample_env ''http://fastdl/gmod/maps'' ''ftp://configuration/gmod'' sample_world
   \<and> quiet_abort sample_env ''s3://[/maps'' [] sample_world (ValueError ''Invalid IPv6 URL'')
   \<and> quiet_abort sample_env ''s3://fastdl/gmod/maps'' ''s3://]/gmod'' sample_world
       (ValueError ''Invalid IPv6 URL'')"
proof -
  have n: "no_address []" "no_address ''not set''"
    by code_simp+
  have o: "urlparse (host_ok sample_env) (netloc_ok sample_env) ''http://fastdl/gmod/maps''
             = Inr \<lparr>scheme = ''http'', netloc = ''fastdl'', path = ''/gmod/maps'', params = [],
                    query = [], fragment = []\<rparr>"
    "urlparse (host_ok sample_env) (netloc_ok sample_env) ''ftp://configuration/gmod''
             = Inr \<lparr>scheme = ''ftp'', netloc = ''configuration'', path = ''/gmod'', params = [],
                    query = [], fragment = []\<rparr>"
    by code_simp+
  have r: "urlparse (host_ok sample_env) (netloc_ok sample_env) ''s3://[/maps''
             = Inl (ValueError ''Invalid IPv6 URL'')"
    "urlparse (host_ok sample_env) (netloc_ok sample_env) ''s3://fastdl/gmod/maps''
             = Inr \<lparr>scheme = ''s3'', netloc = ''fastdl'', path = ''/gmod/maps'', params = [],
                    query = [], fragment = []\<rparr>"
    "urlparse (host_ok sample_env) (netloc_ok sample_env) ''s3://]/gmod''
             = Inl (ValueError ''Invalid IPv6 URL'')"
    by code_simp+
  have q1: "quiet_success sample_env [] ''not set'' sample_world"
    using sources_absent_or_rejected [of "[]" "''not set''" sample_env sample_world] n by blast
  have q2: "quiet_success sample_env ''http://fastdl/gmod/maps'' ''ftp://configuration/gmod''
              sample_world"
    using sources_absent_or_rejected [of "''http://fastdl/gmod/maps''"
        "''ftp://configuration/gmod''" sample_env sample_world
        "\<lparr>scheme = ''http'', netloc = ''fastdl'', path = ''/gmod/maps'', params = [],
          query = [], fragment = []\<rparr>"
        "\<lparr>scheme = ''ftp'', netloc = ''configuration'', path = ''/gmod'', params = [],
          query = [], fragment = []\<rparr>"] o
    by simp
  have q3: "quiet_abort sample_env ''s3://[/maps'' [] sample_world
              (ValueError ''Invalid IPv6 URL'')"
    using sources_absent_or_rejected [of "''s3://[/maps''" "[]" sample_env sample_world _ _
        "ValueError ''Invalid IPv6 URL''"] r(1)
    by blast
  have q4: "quiet_abort sample_env ''s3://fastdl/gmod/maps'' ''s3://]/gmod'' sample_world
              (ValueError ''Invalid IPv6 URL'')"
    using sources_absent_or_rejected [of "''s3://fastdl/gmod/maps''" "''s3://]/gmod''"
        sample_env sample_world
        "\<lparr>scheme = ''s3'', netloc = ''fastdl'', path = ''/gmod/maps'', params = [],
          query = [], fragment = []\<rparr>" _ "ValueError ''Invalid IPv6 URL''"] r(2,3)
    by blast
  show ?thesis
    using n q1 q2 q3 q4 q1 [unfolded quiet_success_def]
    by (simp add: sample_static_file(3))
qed

section \<open>Configuration sync\<close>










end
